theory Spec2Isabelle
  imports Complex_Main "HOL-Library.AList" "HOL-Library.Char_ord" "HOL-Library.List_Lexorder"
    "HOL-Library.Sublist"
begin

section \<open>Floats\<close>

text \<open>
  A Python float is an IEEE 754 double: a finite number (\<open>Fin x\<close> is the double whose value
  is the real \<open>x\<close>, \<open>Fin 0\<close> being \<^verbatim>\<open>0.0\<close>), negative zero, an infinity, or \<^verbatim>\<open>nan\<close> (JSON
  decoding yields the last three on \<^verbatim>\<open>Infinity\<close>, \<^verbatim>\<open>-Infinity\<close> and \<^verbatim>\<open>NaN\<close>).
\<close>

datatype pyfloat = Fin real | NegZero | PosInf | NegInf | NaN

text \<open>The number of binary digits of a natural number (\<^verbatim>\<open>n.bit_length()\<close>).\<close>

fun bit_length :: "nat \<Rightarrow> nat" where
  "bit_length n = (if n = 0 then 0 else Suc (bit_length (n div 2)))"

declare bit_length.simps [simp del]

text \<open>The power of two with an integer exponent.\<close>

definition pow2 :: "int \<Rightarrow> real" where
  "pow2 k = (if 0 \<le> k then 2 ^ nat k else 1 / 2 ^ nat (- k))"

text \<open>The binary exponent of a real \<open>x \<noteq> 0\<close>: the \<open>e\<close> with \<open>2\<^sup>e \<le> |x| < 2\<^sup>e\<^sup>+\<^sup>1\<close>.\<close>

definition exponent :: "real \<Rightarrow> int" where
  "exponent x =
     (if 1 \<le> \<bar>x\<bar> then int (bit_length (nat \<lfloor>\<bar>x\<bar>\<rfloor>)) - 1
      else - int (bit_length (nat (\<lceil>1 / \<bar>x\<bar>\<rceil> - 1))))"

text \<open>Rounding to the nearest integer, a tie going to the even one.\<close>

definition round_half_even :: "real \<Rightarrow> int" where
  "round_half_even x =
     (let f = \<lfloor>x\<rfloor>; d = x - of_int f
      in if d < 1 / 2 then f else if 1 / 2 < d then f + 1 else if even f then f else f + 1)"

text \<open>
  Rounding a real to the nearest double, ties to even: the result is a multiple of the
  unit in the last place \<open>2\<^sup>q\<close>, where \<open>q\<close> leaves 53 significant bits and is at least
  \<open>-1074\<close> (subnormal numbers). The result of magnitude \<open>2\<^sup>1\<^sup>0\<^sup>2\<^sup>4\<close> stands for a number beyond
  the largest double.
\<close>

definition fl :: "real \<Rightarrow> real" where
  "fl x =
     (if x = 0 then 0
      else (let q = max (exponent x - 52) (- 1074)
            in of_int (round_half_even (x / pow2 q)) * pow2 q))"

text \<open>\<^verbatim>\<open>x / 10.0\<close> on a float: the quotient rounded to the nearest double; it keeps the sign
  when it underflows to zero, and never overflows.\<close>

fun float_div10 :: "pyfloat \<Rightarrow> pyfloat" where
  "float_div10 (Fin x) = (if x < 0 \<and> fl (x / 10) = 0 then NegZero else Fin (fl (x / 10)))"
| "float_div10 NegZero = NegZero"
| "float_div10 PosInf = PosInf"
| "float_div10 NegInf = NegInf"
| "float_div10 NaN = NaN"

text \<open>\<^verbatim>\<open>abs(x) > 50\<close> and \<^verbatim>\<open>x > 100\<close> on a float: every comparison with \<^verbatim>\<open>nan\<close> is false.\<close>

fun float_abs_gt_50 :: "pyfloat \<Rightarrow> bool" where
  "float_abs_gt_50 (Fin x) = (50 < \<bar>x\<bar>)"
| "float_abs_gt_50 NegZero = False"
| "float_abs_gt_50 PosInf = True"
| "float_abs_gt_50 NegInf = True"
| "float_abs_gt_50 NaN = False"

fun float_gt_100 :: "pyfloat \<Rightarrow> bool" where
  "float_gt_100 (Fin x) = (100 < x)"
| "float_gt_100 PosInf = True"
| "float_gt_100 _ = False"

section \<open>Python values\<close>

text \<open>
  The script handles JSON documents decoded by \<^verbatim>\<open>response.json()\<close>: \<^verbatim>\<open>None\<close>, booleans,
  integers (unbounded), floats, strings, lists and dictionaries with string keys.
  A dictionary is an association list read with \<open>map_of\<close>.
\<close>

datatype pyval =
    PyNone
  | PyBool bool
  | PyInt int
  | PyFloat pyfloat
  | PyStr string
  | PyList "pyval list"
  | PyDict "(string \<times> pyval) list"

text \<open>The exceptions the script can raise itself, and \<open>Raised msg\<close> for an exception that
  the library or the operating system raises, with the text \<^verbatim>\<open>str(e)\<close> prints.\<close>

datatype py_error = AttributeError | KeyError | TypeError | OverflowError | Raised string

text \<open>\<^verbatim>\<open>bool(v)\<close>, as \<^verbatim>\<open>if v:\<close>, \<^verbatim>\<open>not v\<close> and \<^verbatim>\<open>v or ""\<close> test it.\<close>

fun py_truthy :: "pyval \<Rightarrow> bool" where
  "py_truthy PyNone = False"
| "py_truthy (PyBool b) = b"
| "py_truthy (PyInt n) = (n \<noteq> 0)"
| "py_truthy (PyFloat x) = (x \<noteq> Fin 0 \<and> x \<noteq> NegZero)"
| "py_truthy (PyStr s) = (s \<noteq> [])"
| "py_truthy (PyList xs) = (xs \<noteq> [])"
| "py_truthy (PyDict kvs) = (kvs \<noteq> [])"

text \<open>\<^verbatim>\<open>d.get(key)\<close>: the value, \<^verbatim>\<open>None\<close> for a missing key, \<^verbatim>\<open>AttributeError\<close> when \<open>d\<close> is
  not a dictionary (no other JSON value has a \<^verbatim>\<open>get\<close> method).\<close>

fun py_get :: "pyval \<Rightarrow> string \<Rightarrow> py_error + pyval" where
  "py_get (PyDict kvs) k = Inr (case map_of kvs k of None \<Rightarrow> PyNone | Some v \<Rightarrow> v)"
| "py_get _ k = Inl AttributeError"

text \<open>\<^verbatim>\<open>d[key]\<close> with a string key: \<^verbatim>\<open>KeyError\<close> for a missing key of a dictionary,
  \<^verbatim>\<open>TypeError\<close> on every other JSON value (a list or a string takes no string index, the
  others are not subscriptable).\<close>

fun py_getitem :: "pyval \<Rightarrow> string \<Rightarrow> py_error + pyval" where
  "py_getitem (PyDict kvs) k = (case map_of kvs k of None \<Rightarrow> Inl KeyError | Some v \<Rightarrow> Inr v)"
| "py_getitem _ k = Inl TypeError"

text \<open>\<^verbatim>\<open>isinstance(value, (int, float))\<close>: \<^verbatim>\<open>bool\<close> is a subclass of \<^verbatim>\<open>int\<close>.\<close>

fun is_int_or_float :: "pyval \<Rightarrow> bool" where
  "is_int_or_float (PyBool b) = True"
| "is_int_or_float (PyInt n) = True"
| "is_int_or_float (PyFloat x) = True"
| "is_int_or_float _ = False"

text \<open>The conversion of an integer to a float that \<^verbatim>\<open>n / 10.0\<close> starts with: the nearest
  double, or \<^verbatim>\<open>OverflowError\<close> (int too large to convert to float) when that is beyond the
  largest double.\<close>

definition float_of_int :: "int \<Rightarrow> py_error + pyfloat" where
  "float_of_int n =
     (if 2 ^ 1024 \<le> \<bar>fl (of_int n)\<bar> then Inl OverflowError else Inr (Fin (fl (of_int n))))"

text \<open>\<^verbatim>\<open>value / 10.0\<close>: a float, or the \<^verbatim>\<open>OverflowError\<close> of the conversion; \<^verbatim>\<open>TypeError\<close> on a
  value that is not a number (the script divides under \<^verbatim>\<open>isinstance\<close> only).\<close>

fun div10 :: "pyval \<Rightarrow> py_error + pyval" where
  "div10 (PyBool b) =
     (case float_of_int (if b then 1 else 0) of
        Inl e \<Rightarrow> Inl e | Inr x \<Rightarrow> Inr (PyFloat (float_div10 x)))"
| "div10 (PyInt n) =
     (case float_of_int n of Inl e \<Rightarrow> Inl e | Inr x \<Rightarrow> Inr (PyFloat (float_div10 x)))"
| "div10 (PyFloat x) = Inr (PyFloat (float_div10 x))"
| "div10 _ = Inl TypeError"

declare div10.simps(1,2) [simp del]

text \<open>\<^verbatim>\<open>abs(value) > 50\<close> and \<^verbatim>\<open>value > 100\<close> on a number: exact on integers (\<^verbatim>\<open>True\<close> is 1,
  \<^verbatim>\<open>False\<close> is 0) and on floats.\<close>

fun abs_gt_50 :: "pyval \<Rightarrow> bool" where
  "abs_gt_50 (PyInt n) = (50 < \<bar>n\<bar>)"
| "abs_gt_50 (PyFloat x) = float_abs_gt_50 x"
| "abs_gt_50 _ = False"

fun gt_100 :: "pyval \<Rightarrow> bool" where
  "gt_100 (PyInt n) = (100 < n)"
| "gt_100 (PyFloat x) = float_gt_100 x"
| "gt_100 _ = False"

section \<open>Reading extractor\<close>

definition temperature_codes :: "string list" where
  "temperature_codes = [''temp_current'', ''temperature'', ''va_temperature'']"

definition humidity_codes :: "string list" where
  "humidity_codes = [''humidity_value'', ''humidity'', ''va_humidity'']"

text \<open>\<^verbatim>\<open>code in ("a", "b", "c")\<close>: equality with one of the strings; a value that is not a
  string equals none of them.\<close>

fun code_in :: "pyval \<Rightarrow> string list \<Rightarrow> bool" where
  "code_in (PyStr c) codes = (c \<in> set codes)"
| "code_in _ codes = False"

text \<open>\<^verbatim>\<open>value / 10.0 if abs(value) > 50 else value\<close> under \<^verbatim>\<open>isinstance\<close>, else the value as it is.\<close>

definition scale_temp :: "pyval \<Rightarrow> py_error + pyval" where
  "scale_temp v =
     (if is_int_or_float v then (if abs_gt_50 v then div10 v else Inr v) else Inr v)"

text \<open>\<^verbatim>\<open>value / 10.0 if value > 100 else value\<close> under \<^verbatim>\<open>isinstance\<close>, else the value as it is.\<close>

definition scale_humidity :: "pyval \<Rightarrow> py_error + pyval" where
  "scale_humidity v =
     (if is_int_or_float v then (if gt_100 v then div10 v else Inr v) else Inr v)"

text \<open>One iteration of the loop of \<^verbatim>\<open>extract_temp_humidity\<close> on the point \<open>dp\<close>, from the
  current \<open>(temp, humidity)\<close>.\<close>

definition extract_point :: "pyval \<Rightarrow> pyval \<times> pyval \<Rightarrow> py_error + pyval \<times> pyval" where
  "extract_point dp th =
     (case py_get dp ''code'' of
        Inl e \<Rightarrow> Inl e
      | Inr code \<Rightarrow>
         (case py_get dp ''value'' of
            Inl e \<Rightarrow> Inl e
          | Inr v \<Rightarrow>
              if code_in code temperature_codes then
                (case scale_temp v of Inl e \<Rightarrow> Inl e | Inr temp \<Rightarrow> Inr (temp, snd th))
              else if code_in code humidity_codes then
                (case scale_humidity v of
                   Inl e \<Rightarrow> Inl e | Inr humidity \<Rightarrow> Inr (fst th, humidity))
              else Inr th))"

fun extract_loop :: "pyval list \<Rightarrow> pyval \<times> pyval \<Rightarrow> py_error + pyval \<times> pyval" where
  "extract_loop [] th = Inr th"
| "extract_loop (dp # dps) th =
     (case extract_point dp th of Inl e \<Rightarrow> Inl e | Inr th' \<Rightarrow> extract_loop dps th')"

text \<open>\<^verbatim>\<open>for dp in status_result\<close>: a list gives its elements; a string gives its characters and
  a dictionary its keys, all strings, on which \<^verbatim>\<open>dp.get\<close> raises \<^verbatim>\<open>AttributeError\<close> at the
  first one; the other values are not iterable (\<^verbatim>\<open>TypeError\<close>).\<close>

fun extract_temp_humidity :: "pyval \<Rightarrow> py_error + pyval \<times> pyval" where
  "extract_temp_humidity (PyList dps) = extract_loop dps (PyNone, PyNone)"
| "extract_temp_humidity (PyStr s) = (if s = [] then Inr (PyNone, PyNone) else Inl AttributeError)"
| "extract_temp_humidity (PyDict kvs) =
     (if kvs = [] then Inr (PyNone, PyNone) else Inl AttributeError)"
| "extract_temp_humidity _ = Inl TypeError"

text \<open>Predicates for stating properties of status lists: the point is a dictionary; the
  point is a dictionary whose \<^verbatim>\<open>code\<close> is one of \<open>codes\<close>.\<close>

fun is_dict :: "pyval \<Rightarrow> bool" where
  "is_dict (PyDict kvs) = True"
| "is_dict _ = False"

definition has_code :: "pyval \<Rightarrow> string list \<Rightarrow> bool" where
  "has_code dp codes = (case py_get dp ''code'' of Inl e \<Rightarrow> False | Inr c \<Rightarrow> code_in c codes)"

section \<open>Strings\<close>

text \<open>
  A Python \<^verbatim>\<open>str\<close> is modelled by the list of its UTF-8 bytes, so \<^verbatim>\<open>s.encode()\<close> is the
  string itself, \<^verbatim>\<open>+\<close> is \<open>@\<close>, and lengths and slices count bytes (they agree with Python's
  on ASCII text).
\<close>

definition digit_char :: "nat \<Rightarrow> char" where
  "digit_char n = ''0123456789'' ! n"

text \<open>\<^verbatim>\<open>str(n)\<close> of an integer: its decimal digits, with a minus sign when negative.\<close>

fun str_nat :: "nat \<Rightarrow> string" where
  "str_nat n = (if n < 10 then [digit_char n] else str_nat (n div 10) @ [digit_char (n mod 10)])"

declare str_nat.simps [simp del]

definition str_int :: "int \<Rightarrow> string" where
  "str_int i = (if i < 0 then CHR ''-'' # str_nat (nat (- i)) else str_nat (nat i))"

text \<open>\<^verbatim>\<open>str(b)\<close> of a boolean.\<close>

definition str_bool :: "bool \<Rightarrow> string" where
  "str_bool b = (if b then ''True'' else ''False'')"

text \<open>\<^verbatim>\<open>digest.hex()\<close>: two lowercase hexadecimal digits for each byte.\<close>

definition hex_digit :: "nat \<Rightarrow> char" where
  "hex_digit n = ''0123456789abcdef'' ! n"

definition hex_byte :: "char \<Rightarrow> string" where
  "hex_byte c = [hex_digit (of_char c div 16), hex_digit (of_char c mod 16)]"

definition hexdigest :: "string \<Rightarrow> string" where
  "hexdigest bs = concat (map hex_byte bs)"

text \<open>\<^verbatim>\<open>s.upper()\<close> on ASCII text, which a hexadecimal digest is: the letters a to z become A
  to Z and every other byte stays.\<close>

definition upper_char :: "char \<Rightarrow> char" where
  "upper_char c =
     (case map_of (zip ''abcdefghijklmnopqrstuvwxyz'' ''ABCDEFGHIJKLMNOPQRSTUVWXYZ'') c of
        None \<Rightarrow> c | Some u \<Rightarrow> u)"

definition py_upper :: "string \<Rightarrow> string" where
  "py_upper s = map upper_char s"

definition startswith :: "string \<Rightarrow> string \<Rightarrow> bool" where
  "startswith s pre = (take (length pre) s = pre)"

definition endswith :: "string \<Rightarrow> string \<Rightarrow> bool" where
  "endswith s suf = (length suf \<le> length s \<and> drop (length s - length suf) s = suf)"

section \<open>Library functions\<close>

text \<open>
  The functions of the Python library the script calls and that are no part of the
  repository are parameters of the model:
  \<^item> \<open>sha256 data\<close> is \<^verbatim>\<open>hashlib.sha256(data).digest()\<close>;
  \<^item> \<open>hmac_sha256 key msg\<close> is \<^verbatim>\<open>hmac.new(key, msg, hashlib.sha256).digest()\<close>;
  \<^item> \<open>json_dumps v\<close> is \<^verbatim>\<open>json.dumps(v)\<close>, the text \<^verbatim>\<open>json.dump\<close> writes too;
  \<^item> \<open>py_str v\<close> is \<^verbatim>\<open>str(v)\<close>, which \<^verbatim>\<open>print\<close> and an f-string field \<^verbatim>\<open>{v}\<close> produce.
\<close>

record pylib =
  sha256 :: "string \<Rightarrow> string"
  hmac_sha256 :: "string \<Rightarrow> string \<Rightarrow> string"
  json_dumps :: "pyval \<Rightarrow> string"
  py_str :: "pyval \<Rightarrow> string"

section \<open>Signer\<close>

text \<open>The fields of \<^verbatim>\<open>SimpleTuyaAPI\<close>. The token is \<^verbatim>\<open>None\<close> until \<^verbatim>\<open>connect\<close> stores what the
  token response carries.\<close>

record api =
  endpoint :: string
  access_id :: string
  access_key :: string
  token :: pyval

type_synonym headers = "(string \<times> string) list"

text \<open>\<^verbatim>\<open>self.token or ""\<close>.\<close>

definition token_or_empty :: "pyval \<Rightarrow> pyval" where
  "token_or_empty tok = (if py_truthy tok then tok else PyStr [])"

text \<open>The bytes that are hashed: \<^verbatim>\<open>content.encode()\<close> for a truthy body, where \<open>content\<close> is
  \<^verbatim>\<open>json.dumps(body)\<close> for a dictionary and the body itself otherwise (only a string has
  \<^verbatim>\<open>encode\<close>); \<^verbatim>\<open>b""\<close> for a falsy body (\<^verbatim>\<open>None\<close>, the empty string, the empty dictionary).\<close>

definition body_content :: "pylib \<Rightarrow> pyval \<Rightarrow> py_error + string" where
  "body_content L body =
     (if py_truthy body then
        (case body of
           PyDict kvs \<Rightarrow> Inr (json_dumps L body)
         | PyStr s \<Rightarrow> Inr s
         | _ \<Rightarrow> Inl AttributeError)
      else Inr [])"

text \<open>The local \<^verbatim>\<open>str_to_sign\<close> when it is complete (lines 47 to 56), from the method, the
  hexadecimal digest of the content and the path.\<close>

definition str_to_sign :: "string \<Rightarrow> string \<Rightarrow> string \<Rightarrow> string" where
  "str_to_sign method content_hash path =
     method @ ''\<newline>'' @ content_hash @ ''\<newline>'' @ ''\<newline>'' @ path"

text \<open>\<^verbatim>\<open>_sign_request\<close>. \<open>now_ms\<close> is \<^verbatim>\<open>int(time.time() * 1000)\<close> as the clock gives it at the
  call. The parameter \<^verbatim>\<open>params\<close> is unused in the source. Concatenating the access id
  with a truthy token that is not a string raises \<^verbatim>\<open>TypeError\<close>.\<close>

definition sign_request ::
  "pylib \<Rightarrow> int \<Rightarrow> api \<Rightarrow> string \<Rightarrow> string \<Rightarrow> pyval \<Rightarrow> py_error + headers" where
  "sign_request L now_ms self method path body =
     (let t = str_int now_ms in
      case body_content L body of
        Inl e \<Rightarrow> Inl e
      | Inr content \<Rightarrow>
          (let s = str_to_sign method (hexdigest (sha256 L content)) path in
           case token_or_empty (token self) of
             PyStr tok \<Rightarrow>
               (let sign_str = access_id self @ tok @ t @ s;
                    signature = py_upper (hexdigest (hmac_sha256 L (access_key self) sign_str))
                in Inr [(''client_id'', access_id self),
                        (''sign'', signature),
                        (''t'', t),
                        (''sign_method'', ''HMAC-SHA256''),
                        (''access_token'', tok)])
           | _ \<Rightarrow> Inl TypeError))"

text \<open>The canonical string as the specification words it: method, newline, digest, newline,
  newline (the empty header block), newline, path.\<close>

definition spec_canonical_string :: "string \<Rightarrow> string \<Rightarrow> string \<Rightarrow> string" where
  "spec_canonical_string method content_hash path =
     method @ ''\<newline>'' @ content_hash @ ''\<newline>'' @ ''\<newline>'' @ ''\<newline>'' @ path"

section \<open>Environment and world\<close>

text \<open>A Reading: the dictionary with the four keys \<^verbatim>\<open>main\<close> builds for a device.\<close>

record reading =
  timestamp :: string
  device_id :: string
  temperature_c :: pyval
  humidity_percent :: pyval

text \<open>The requests the script issues: \<^verbatim>\<open>requests.get(url, headers=...)\<close> and
  \<^verbatim>\<open>requests.post(url, json=readings)\<close>. The timeouts are the network's business: a call
  that times out raises.\<close>

datatype request = Get string headers | Post string "reading list"

text \<open>What \<^verbatim>\<open>response.json()\<close> does with the body of a response: it raises (with the text of
  the exception) or returns the decoded value.\<close>

datatype http_body = NotJson string | Json pyval

text \<open>
  Everything a run reads from outside. The clock and the network are indexed by the
  number of requests the run has issued so far, so that they may answer differently as
  the run proceeds:
  \<^item> the three environment variables, \<^verbatim>\<open>STORAGE_URL\<close> with its default \<^verbatim>\<open>""\<close>;
  \<^item> \<open>datetime_now\<close> is \<^verbatim>\<open>datetime.now().strftime("%Y-%m-%d %H:%M:%S")\<close>, \<open>date_today\<close> is
    \<^verbatim>\<open>date.today().strftime("%Y%m%d")\<close>, \<open>time_ms\<close> is \<^verbatim>\<open>int(time.time() * 1000)\<close>;
  \<^item> \<open>requests_get\<close> raises (\<open>Inl\<close>, with the text of the exception) or returns a response;
    \<open>requests_post\<close> raises or returns a response, of which only the status code is read.
\<close>

record env =
  TUYA_ACCESS_ID :: "string option"
  TUYA_ACCESS_KEY :: "string option"
  STORAGE_URL :: string
  datetime_now :: "nat \<Rightarrow> string"
  date_today :: "nat \<Rightarrow> string"
  time_ms :: "nat \<Rightarrow> int"
  requests_get :: "nat \<Rightarrow> string \<Rightarrow> headers \<Rightarrow> string + http_body"
  requests_post :: "nat \<Rightarrow> string \<Rightarrow> reading list \<Rightarrow> string + int"

text \<open>The file system: the directories and the files (path and content) that exist, and
  the paths on which the operating system refuses an operation. Paths are relative to
  the working directory, which exists.\<close>

record filesystem =
  dirs :: "string list"
  files :: "(string \<times> string) list"
  denied :: "string list"

text \<open>What a run changes: the requests issued, the lines printed, the file system.\<close>

record world =
  sent :: "request list"
  stdout :: "string list"
  fs :: filesystem

definition py_print :: "string \<Rightarrow> world \<Rightarrow> world" where
  "py_print line w = w\<lparr>stdout := stdout w @ [line]\<rparr>"

definition ENDPOINT :: string where
  "ENDPOINT = ''https://openapi.tuyaeu.com''"

definition DEVICE_IDS :: "string list" where
  "DEVICE_IDS = [''bf7ecfc010164c849dwpqp'', ''bf58e5674b50680432umav'', ''bfefd09a22241b31b10cpo'']"

section \<open>API client\<close>

text \<open>\<^verbatim>\<open>connect\<close>: the result is the exception that escapes or the boolean returned, with the
  client (its token) and the world afterwards.\<close>

definition connect ::
  "pylib \<Rightarrow> env \<Rightarrow> api \<Rightarrow> world \<Rightarrow> (py_error + bool) \<times> api \<times> world" where
  "connect L E self w =
     (let path = ''/v1.0/token?grant_type=1'' in
      case sign_request L (time_ms E (length (sent w))) self ''GET'' path PyNone of
        Inl e \<Rightarrow> (Inl e, self, w)
      | Inr hdrs \<Rightarrow>
          (let w1 = w\<lparr>sent := sent w @ [Get (endpoint self @ path) hdrs]\<rparr> in
           case requests_get E (length (sent w)) (endpoint self @ path) hdrs of
             Inl msg \<Rightarrow> (Inl (Raised msg), self, w1)
           | Inr (NotJson msg) \<Rightarrow>
               (Inr False, self, py_print (''ERROR: Token response not JSON: '' @ msg) w1)
           | Inr (Json result) \<Rightarrow>
               (case py_get result ''success'' of
                  Inl e \<Rightarrow> (Inl e, self, w1)
                | Inr success \<Rightarrow>
                    if py_truthy success then
                      (case py_getitem result ''result'' of
                         Inl e \<Rightarrow> (Inl e, self, w1)
                       | Inr r \<Rightarrow>
                           (case py_getitem r ''access_token'' of
                              Inl e \<Rightarrow> (Inl e, self, w1)
                            | Inr tok \<Rightarrow> (Inr True, self\<lparr>token := tok\<rparr>, w1)))
                    else
                      (Inr False, self,
                       py_print (''ERROR: token call failed: '' @ py_str L result) w1))))"

text \<open>\<^verbatim>\<open>get\<close>: the decoded body, or the synthetic failure object when the body is not JSON.\<close>

definition get :: "pylib \<Rightarrow> env \<Rightarrow> api \<Rightarrow> string \<Rightarrow> world \<Rightarrow> (py_error + pyval) \<times> world" where
  "get L E self path w =
     (case sign_request L (time_ms E (length (sent w))) self ''GET'' path PyNone of
        Inl e \<Rightarrow> (Inl e, w)
      | Inr hdrs \<Rightarrow>
          (let w1 = w\<lparr>sent := sent w @ [Get (endpoint self @ path) hdrs]\<rparr> in
           case requests_get E (length (sent w)) (endpoint self @ path) hdrs of
             Inl msg \<Rightarrow> (Inl (Raised msg), w1)
           | Inr (NotJson msg) \<Rightarrow>
               (Inr (PyDict [(''success'', PyBool False), (''msg'', PyStr ''invalid response'')]),
                py_print (''ERROR: response not JSON: '' @ msg) w1)
           | Inr (Json v) \<Rightarrow> (Inr v, w1)))"

text \<open>What the token response must be for \<^verbatim>\<open>connect\<close> to succeed: it reports success (a
  dictionary whose \<^verbatim>\<open>success\<close> is truthy) and contains a token field
  (\<^verbatim>\<open>result["result"]["access_token"]\<close> exists).\<close>

definition reports_success :: "pyval \<Rightarrow> bool" where
  "reports_success result =
     (case py_get result ''success'' of Inl e \<Rightarrow> False | Inr s \<Rightarrow> py_truthy s)"

definition token_field :: "pyval \<Rightarrow> pyval option" where
  "token_field result =
     (case py_getitem result ''result'' of
        Inl e \<Rightarrow> None
      | Inr r \<Rightarrow> (case py_getitem r ''access_token'' of Inl e \<Rightarrow> None | Inr tok \<Rightarrow> Some tok))"

section \<open>Output sinks\<close>

text \<open>\<^verbatim>\<open>send_to_storage\<close>: the \<^verbatim>\<open>except Exception\<close> clause turns a raising POST into a printed
  line.\<close>

definition send_to_storage ::
  "env \<Rightarrow> reading list \<Rightarrow> world \<Rightarrow> (py_error + unit) \<times> world" where
  "send_to_storage E readings w =
     (if STORAGE_URL E \<noteq> [] then
        (let w1 = w\<lparr>sent := sent w @ [Post (STORAGE_URL E) readings]\<rparr> in
         case requests_post E (length (sent w)) (STORAGE_URL E) readings of
           Inl msg \<Rightarrow> (Inr (), py_print (''Storage error: '' @ msg) w1)
         | Inr status_code \<Rightarrow> (Inr (), py_print (''Sent to storage: '' @ str_int status_code) w1))
      else (Inr (), w))"

text \<open>The text of an \<^verbatim>\<open>OSError\<close>, as \<^verbatim>\<open>str(e)\<close> gives it for a plain ASCII path.\<close>

definition os_error :: "string \<Rightarrow> string \<Rightarrow> string \<Rightarrow> string" where
  "os_error errno what path =
     ''[Errno '' @ errno @ ''] '' @ what @ '': '' @ [CHR 0x27] @ path @ [CHR 0x27]"

text \<open>\<^verbatim>\<open>os.path.dirname\<close> of a relative path: what precedes the last slash, or nothing.\<close>

definition dirname :: "string \<Rightarrow> string" where
  "dirname p =
     (if CHR ''/'' \<in> set p then rev (tl (dropWhile (\<lambda>c. c \<noteq> CHR ''/'') (rev p))) else [])"

definition is_dir :: "filesystem \<Rightarrow> string \<Rightarrow> bool" where
  "is_dir fsys p = (p \<in> set (dirs fsys))"

definition is_file :: "filesystem \<Rightarrow> string \<Rightarrow> bool" where
  "is_file fsys p = (p \<in> fst ` set (files fsys))"

text \<open>\<^verbatim>\<open>os.path.exists\<close>.\<close>

definition path_exists :: "filesystem \<Rightarrow> string \<Rightarrow> bool" where
  "path_exists fsys p = (is_dir fsys p \<or> is_file fsys p)"

definition read_file :: "filesystem \<Rightarrow> string \<Rightarrow> string option" where
  "read_file fsys p = map_of (files fsys) p"

text \<open>\<^verbatim>\<open>os.makedirs(path, exist_ok=True)\<close> for a directory of the working directory: nothing
  to do when the directory exists; \<^verbatim>\<open>FileExistsError\<close> when a file has the name;
  \<^verbatim>\<open>PermissionError\<close> when the system refuses; else the directory is created.\<close>

definition makedirs :: "string \<Rightarrow> filesystem \<Rightarrow> string + filesystem" where
  "makedirs path fsys =
     (if is_dir fsys path then Inr fsys
      else if is_file fsys path then Inl (os_error ''17'' ''File exists'' path)
      else if path \<in> set (denied fsys) then Inl (os_error ''13'' ''Permission denied'' path)
      else Inr (fsys\<lparr>dirs := dirs fsys @ [path]\<rparr>))"

text \<open>\<^verbatim>\<open>ensure_dir\<close>: the exception of \<^verbatim>\<open>os.makedirs\<close> is caught and printed.\<close>

definition ensure_dir :: "string \<Rightarrow> world \<Rightarrow> (py_error + unit) \<times> world" where
  "ensure_dir path w =
     (case makedirs path (fs w) of
        Inl msg \<Rightarrow> (Inr (), py_print (''Could not create directory '' @ path @ '' '' @ msg) w)
      | Inr fsys \<Rightarrow> (Inr (), w\<lparr>fs := fsys\<rparr>))"

text \<open>\<^verbatim>\<open>open(path, mode)\<close> for writing (\<^verbatim>\<open>"a"\<close> or \<^verbatim>\<open>"w"\<close>): it raises when the directory of
  the path is missing or is a file, when the path is a directory, or when the system
  refuses. Otherwise the file exists afterwards: created empty if it was missing, emptied
  under \<^verbatim>\<open>"w"\<close> (\<open>trunc\<close>), kept under \<^verbatim>\<open>"a"\<close>.\<close>

definition open_write :: "bool \<Rightarrow> string \<Rightarrow> filesystem \<Rightarrow> string + filesystem" where
  "open_write trunc path fsys =
     (if dirname path \<noteq> [] \<and> \<not> is_dir fsys (dirname path) then
        (if is_file fsys (dirname path) then Inl (os_error ''20'' ''Not a directory'' path)
         else Inl (os_error ''2'' ''No such file or directory'' path))
      else if is_dir fsys path then Inl (os_error ''21'' ''Is a directory'' path)
      else if path \<in> set (denied fsys) then Inl (os_error ''13'' ''Permission denied'' path)
      else if is_file fsys path \<and> \<not> trunc then Inr fsys
      else Inr (fsys\<lparr>files := AList.update path [] (files fsys)\<rparr>))"

text \<open>\<^verbatim>\<open>f.write(text)\<close> on an open file: the text goes to the end of the file.\<close>

definition write_file :: "string \<Rightarrow> string \<Rightarrow> filesystem \<Rightarrow> filesystem" where
  "write_file path text fsys =
     fsys\<lparr>files := AList.update path
        ((case map_of (files fsys) path of None \<Rightarrow> [] | Some old \<Rightarrow> old) @ text) (files fsys)\<rparr>"

text \<open>The data line of a reading, as the f-string of \<^verbatim>\<open>append_to_csv\<close> formats it.\<close>

definition csv_line :: "pylib \<Rightarrow> reading \<Rightarrow> string" where
  "csv_line L r =
     timestamp r @ '','' @ device_id r @ '','' @ py_str L (temperature_c r) @ '',''
       @ py_str L (humidity_percent r) @ ''\<newline>''"

definition csv_header :: string where
  "csv_header = ''timestamp,device_id,temperature_c,humidity_percent\<newline>''"

text \<open>The writes inside the \<^verbatim>\<open>with\<close> block of \<^verbatim>\<open>append_to_csv\<close>, in order.\<close>

fun write_rows :: "pylib \<Rightarrow> string \<Rightarrow> reading list \<Rightarrow> filesystem \<Rightarrow> filesystem" where
  "write_rows L path [] fsys = fsys"
| "write_rows L path (r # rows) fsys = write_rows L path rows (write_file path (csv_line L r) fsys)"

definition append_to_csv ::
  "pylib \<Rightarrow> string \<Rightarrow> reading list \<Rightarrow> filesystem \<Rightarrow> py_error + filesystem" where
  "append_to_csv L csv_path rows fsys =
     (let header = csv_header;
          exists = path_exists fsys csv_path
      in case open_write False csv_path fsys of
           Inl msg \<Rightarrow> Inl (Raised msg)
         | Inr f \<Rightarrow>
             Inr (write_rows L csv_path rows
                    (if \<not> exists then write_file csv_path header f else f)))"

text \<open>\<^verbatim>\<open>os.listdir(path)\<close>: the names of the files and directories directly inside.\<close>

definition child_name :: "string \<Rightarrow> string \<Rightarrow> string option" where
  "child_name d p =
     (let pre = d @ ''/''; name = drop (length pre) p
      in if take (length pre) p = pre \<and> name \<noteq> [] \<and> CHR ''/'' \<notin> set name then Some name
         else None)"

definition listdir :: "string \<Rightarrow> filesystem \<Rightarrow> string + string list" where
  "listdir path fsys =
     (if \<not> is_dir fsys path then
        (if is_file fsys path then Inl (os_error ''20'' ''Not a directory'' path)
         else Inl (os_error ''2'' ''No such file or directory'' path))
      else if path \<in> set (denied fsys) then Inl (os_error ''13'' ''Permission denied'' path)
      else Inr (List.map_filter (child_name path) (map fst (files fsys) @ dirs fsys)))"

text \<open>The manifest update of \<^verbatim>\<open>main\<close> (lines 226 to 231), with its \<^verbatim>\<open>except Exception\<close>
  clause.\<close>

definition update_manifest :: "pylib \<Rightarrow> string \<Rightarrow> world \<Rightarrow> (py_error + unit) \<times> world" where
  "update_manifest L outdir w =
     (case listdir outdir (fs w) of
        Inl msg \<Rightarrow> (Inr (), py_print (''Could not update manifest on main branch: '' @ msg) w)
      | Inr names \<Rightarrow>
          (let csvs = sort (filter (\<lambda>f. startswith f ''TROFICDORD'' \<and> endswith f ''.csv'') names)
           in case open_write True (outdir @ ''/'' @ ''manifest.json'') (fs w) of
                Inl msg \<Rightarrow>
                  (Inr (), py_print (''Could not update manifest on main branch: '' @ msg) w)
              | Inr f \<Rightarrow>
                  (Inr (), w\<lparr>fs := write_file (outdir @ ''/'' @ ''manifest.json'')
                                   (json_dumps L (PyList (map PyStr csvs))) f\<rparr>)))"

section \<open>Run orchestrator\<close>

text \<open>The body of the loop over \<^verbatim>\<open>DEVICE_IDS\<close> (lines 184 to 206) for one device, from the
  readings collected so far: the readings afterwards, or the exception that escapes.\<close>

definition fetch_device ::
  "pylib \<Rightarrow> env \<Rightarrow> api \<Rightarrow> string \<Rightarrow> string \<Rightarrow> reading list \<times> world
     \<Rightarrow> (py_error + reading list) \<times> world" where
  "fetch_device L E self ts dev rw =
     (let all_readings = fst rw;
          w0 = py_print (''--- Fetching device: '' @ dev @ '' ---'') (snd rw)
      in case get L E self (''/v1.0/devices/'' @ dev @ ''/status'') w0 of
           (Inl e, w1) \<Rightarrow> (Inl e, w1)
         | (Inr status_response, w1) \<Rightarrow>
             (case py_get status_response ''success'' of
                Inl e \<Rightarrow> (Inl e, w1)
              | Inr success \<Rightarrow>
                  if \<not> py_truthy success then
                    (Inr all_readings,
                     py_print (''ERROR: Failed to get status for '' @ dev @ '' - ''
                                 @ py_str L status_response) w1)
                  else
                    (case py_getitem status_response ''result'' of
                       Inl e \<Rightarrow> (Inl e, w1)
                     | Inr result \<Rightarrow>
                         (case extract_temp_humidity result of
                            Inl e \<Rightarrow> (Inl e, w1)
                          | Inr (temp, humidity) \<Rightarrow>
                              if temp \<noteq> PyNone \<and> humidity \<noteq> PyNone then
                                (Inr (all_readings @
                                   [\<lparr>timestamp = ts, device_id = dev,
                                     temperature_c = temp, humidity_percent = humidity\<rparr>]),
                                 py_print []
                                   (py_print (''SUCCESS: Temp: '' @ py_str L temp
                                      @ ''C, Humidity: '' @ py_str L humidity @ ''%'') w1))
                              else
                                (Inr all_readings,
                                 py_print []
                                   (py_print (''WARNING: Could not extract temperature or ''
                                      @ ''humidity for '' @ dev) w1))))))"

fun fetch_devices ::
  "pylib \<Rightarrow> env \<Rightarrow> api \<Rightarrow> string \<Rightarrow> string list \<Rightarrow> reading list \<times> world
     \<Rightarrow> (py_error + reading list) \<times> world" where
  "fetch_devices L E self ts [] rw = (Inr (fst rw), snd rw)"
| "fetch_devices L E self ts (dev # devs) rw =
     (case fetch_device L E self ts dev rw of
        (Inl e, w1) \<Rightarrow> (Inl e, w1)
      | (Inr rs, w1) \<Rightarrow> fetch_devices L E self ts devs (rs, w1))"

text \<open>\<^verbatim>\<open>bool(ACCESS_ID)\<close> on the value of \<^verbatim>\<open>os.environ.get\<close>: set and not empty; and
  the string itself where the variable is set.\<close>

definition var_present :: "string option \<Rightarrow> bool" where
  "var_present v = (case v of None \<Rightarrow> False | Some s \<Rightarrow> s \<noteq> [])"

definition var_value :: "string option \<Rightarrow> string" where
  "var_value v = (case v of None \<Rightarrow> [] | Some s \<Rightarrow> s)"

text \<open>\<^verbatim>\<open>main\<close> up to the summary (lines 162 to 210): an exception that escapes, an exit
  code returned early (\<open>Inr (Inl code)\<close>), or the readings collected.\<close>

definition main_collect ::
  "pylib \<Rightarrow> env \<Rightarrow> world \<Rightarrow> (py_error + int + reading list) \<times> world" where
  "main_collect L E w =
     (let ts = datetime_now E (length (sent w));
          w0 = py_print (''\<newline>['' @ ts @ ''] Starting IoT data fetch for ''
                  @ str_int (int (length DEVICE_IDS)) @ '' devices...'') w
      in if \<not> var_present (TUYA_ACCESS_ID E) \<or> \<not> var_present (TUYA_ACCESS_KEY E) then
           (Inr (Inl 1),
            py_print (''DEBUG: ACCESS_ID present: '' @ str_bool (var_present (TUYA_ACCESS_ID E))
                        @ '', ACCESS_KEY present: ''
                        @ str_bool (var_present (TUYA_ACCESS_KEY E)))
              (py_print ''ERROR: TUYA_ACCESS_ID and TUYA_ACCESS_KEY must be set'' w0))
         else
           (let w1 = py_print (''DEBUG: Using ACCESS_ID: '' @ take 8 (var_value (TUYA_ACCESS_ID E))
                         @ ''... (truncated for security)'') w0;
                self = \<lparr>endpoint = ENDPOINT, access_id = var_value (TUYA_ACCESS_ID E),
                        access_key = var_value (TUYA_ACCESS_KEY E), token = PyNone\<rparr>
            in case connect L E self w1 of
                 (Inl e, self1, w2) \<Rightarrow> (Inl e, w2)
               | (Inr ok, self1, w2) \<Rightarrow>
                   if \<not> ok then
                     (Inr (Inl 2), py_print ''ERROR: Could not connect to Tuya API'' w2)
                   else
                     (case fetch_devices L E self1 ts DEVICE_IDS
                             ([], py_print ''Connected successfully\<newline>'' w2) of
                        (Inl e, w3) \<Rightarrow> (Inl e, w3)
                      | (Inr all_readings, w3) \<Rightarrow>
                          (Inr (Inr all_readings),
                           py_print (''Successfully read '' @ str_int (int (length all_readings))
                                       @ ''/'' @ str_int (int (length DEVICE_IDS)) @ '' devices'')
                             (py_print ''--- Summary ---'' w3)))))"

text \<open>The lines of the log that repeat the readings in CSV form (lines 236 and 237).\<close>

fun print_rows :: "pylib \<Rightarrow> reading list \<Rightarrow> world \<Rightarrow> world" where
  "print_rows L [] w = w"
| "print_rows L (r # rows) w =
     print_rows L rows
       (py_print (timestamp r @ '','' @ device_id r @ '','' @ py_str L (temperature_c r) @ '',''
                    @ py_str L (humidity_percent r)) w)"

text \<open>The output step of \<^verbatim>\<open>main\<close> (lines 213 to 239). An exception of \<^verbatim>\<open>append_to_csv\<close> is
  not caught.\<close>

definition main_output ::
  "pylib \<Rightarrow> env \<Rightarrow> reading list \<Rightarrow> world \<Rightarrow> (py_error + unit) \<times> world" where
  "main_output L E all_readings w =
     (if all_readings \<noteq> [] then
        (case send_to_storage E all_readings w of
           (Inl e, w1) \<Rightarrow> (Inl e, w1)
         | (Inr u1, w1) \<Rightarrow>
             (let today = date_today E (length (sent w1));
                  filename = ''TROFICDORD'' @ today @ ''.csv'';
                  outdir = ''data''
              in case ensure_dir outdir w1 of
                   (Inl e, w2) \<Rightarrow> (Inl e, w2)
                 | (Inr u2, w2) \<Rightarrow>
                     (let csv_path = outdir @ ''/'' @ filename
                      in case append_to_csv L csv_path all_readings (fs w2) of
                           Inl e \<Rightarrow> (Inl e, w2)
                         | Inr f \<Rightarrow>
                             (case update_manifest L outdir
                                     (py_print (''Wrote/updated CSV: '' @ csv_path)
                                        (w2\<lparr>fs := f\<rparr>)) of
                                (Inl e, w3) \<Rightarrow> (Inl e, w3)
                              | (Inr u3, w3) \<Rightarrow>
                                  (Inr (),
                                   print_rows L all_readings
                                     (py_print ''timestamp,device_id,temperature_c,humidity_percent''
                                        (py_print ''\<newline>--- CSV Format ---'' w3)))))))
      else (Inr (), py_print ''No readings collected; nothing to write.'' w))"

text \<open>\<^verbatim>\<open>main\<close>: the exit code it returns, or the exception that ends the run.\<close>

definition main :: "pylib \<Rightarrow> env \<Rightarrow> world \<Rightarrow> (py_error + int) \<times> world" where
  "main L E w =
     (case main_collect L E w of
        (Inl e, w1) \<Rightarrow> (Inl e, w1)
      | (Inr (Inl code), w1) \<Rightarrow> (Inr code, w1)
      | (Inr (Inr all_readings), w1) \<Rightarrow>
          (case main_output L E all_readings w1 of
             (Inl e, w2) \<Rightarrow> (Inl e, w2)
           | (Inr u, w2) \<Rightarrow> (Inr 0, w2)))"

text \<open>The storage POSTs among the requests of a world.\<close>

fun is_post :: "request \<Rightarrow> bool" where
  "is_post (Post url readings) = True"
| "is_post (Get url hdrs) = False"

definition posts :: "world \<Rightarrow> request list" where
  "posts w = filter is_post (sent w)"

section \<open>Example data\<close>

text \<open>A stand-in library for evaluating the model on concrete inputs: fixed digests of 32
  bytes (the one of SHA-256 on the empty input is the real one), and \<^verbatim>\<open>str\<close> as Python gives
  it on \<^verbatim>\<open>None\<close>, booleans, integers, strings and the floats of the examples.\<close>

definition stub_lib :: pylib where
  "stub_lib =
     \<lparr>sha256 = (\<lambda>data.
         if data = [] then
           [CHR 0xe3, CHR 0xb0, CHR 0xc4, CHR 0x42, CHR 0x98, CHR 0xfc, CHR 0x1c, CHR 0x14,
            CHR 0x9a, CHR 0xfb, CHR 0xf4, CHR 0xc8, CHR 0x99, CHR 0x6f, CHR 0xb9, CHR 0x24,
            CHR 0x27, CHR 0xae, CHR 0x41, CHR 0xe4, CHR 0x64, CHR 0x9b, CHR 0x93, CHR 0x4c,
            CHR 0xa4, CHR 0x95, CHR 0x99, CHR 0x1b, CHR 0x78, CHR 0x52, CHR 0xb8, CHR 0x55]
         else replicate 32 (CHR 0x00)),
      hmac_sha256 = (\<lambda>key msg.
           [CHR 0x5a, CHR 0x5a, CHR 0x5a, CHR 0x5a, CHR 0x5a, CHR 0x5a, CHR 0x5a, CHR 0x5a,
            CHR 0x5a, CHR 0x5a, CHR 0x5a, CHR 0x5a, CHR 0x5a, CHR 0x5a, CHR 0x5a, CHR 0x5a,
            CHR 0xc3, CHR 0xc3, CHR 0xc3, CHR 0xc3, CHR 0xc3, CHR 0xc3, CHR 0xc3, CHR 0xc3,
            CHR 0xc3, CHR 0xc3, CHR 0xc3, CHR 0xc3, CHR 0xc3, CHR 0xc3, CHR 0xc3, CHR 0xc3]),
      json_dumps = (\<lambda>v. ''{}''),
      py_str = (\<lambda>v. case v of
           PyNone \<Rightarrow> ''None''
         | PyBool b \<Rightarrow> str_bool b
         | PyInt n \<Rightarrow> str_int n
         | PyFloat x \<Rightarrow>
             (if x = Fin 23.5 then ''23.5'' else if x = Fin 45.5 then ''45.5''
              else if x = Fin (- 6) then ''-6.0'' else ''?'')
         | PyStr s \<Rightarrow> s
         | _ \<Rightarrow> ''?'')\<rparr>"

text \<open>A run on an empty file system: the token request succeeds; the first device reports
  235 and 455, the second only a temperature, the third -60 and 45; the storage POST
  raises; the clock moves on after the first request. In \<open>offline_env\<close> every device
  answers without success.\<close>

definition example_world :: world where
  "example_world = \<lparr>sent = [], stdout = [], fs = \<lparr>dirs = [], files = [], denied = []\<rparr>\<rparr>"

definition token_response :: pyval where
  "token_response =
     PyDict [(''success'', PyBool True),
             (''result'', PyDict [(''access_token'', PyStr ''tok''), (''expire_time'', PyInt 7200)])]"

definition example_env :: env where
  "example_env =
     \<lparr>TUYA_ACCESS_ID = Some ''my-access-id'',
      TUYA_ACCESS_KEY = Some ''my-secret'',
      STORAGE_URL = ''https://storage.example/readings'',
      datetime_now = (\<lambda>n. if n = 0 then ''2024-01-02 03:04:05'' else ''2024-01-02 03:04:09''),
      date_today = (\<lambda>n. ''20240102''),
      time_ms = (\<lambda>n. 1704164645000 + 1000 * int n),
      requests_get = (\<lambda>n url hdrs.
        if url = ''https://openapi.tuyaeu.com/v1.0/token?grant_type=1'' then
          Inr (Json token_response)
        else if url = ''https://openapi.tuyaeu.com/v1.0/devices/bf7ecfc010164c849dwpqp/status'' then
          Inr (Json (PyDict [(''success'', PyBool True),
            (''result'', PyList [PyDict [(''code'', PyStr ''temp_current''), (''value'', PyInt 235)],
                                 PyDict [(''code'', PyStr ''humidity''), (''value'', PyInt 455)]])]))
        else if url = ''https://openapi.tuyaeu.com/v1.0/devices/bf58e5674b50680432umav/status'' then
          Inr (Json (PyDict [(''success'', PyBool True),
            (''result'', PyList [PyDict [(''code'', PyStr ''temp_current''), (''value'', PyInt 23)]])]))
        else
          Inr (Json (PyDict [(''success'', PyBool True),
            (''result'', PyList [PyDict [(''code'', PyStr ''va_temperature''), (''value'', PyInt (- 60))],
                                 PyDict [(''code'', PyStr ''va_humidity''), (''value'', PyInt 45)]])]))),
      requests_post = (\<lambda>n url readings. Inl ''connection refused'')\<rparr>"

definition offline_env :: env where
  "offline_env =
     example_env\<lparr>requests_get := (\<lambda>n url hdrs.
        if url = ''https://openapi.tuyaeu.com/v1.0/token?grant_type=1'' then
          Inr (Json token_response)
        else
          Inr (Json (PyDict [(''success'', PyBool False), (''msg'', PyStr ''device is offline'')])))\<rparr>"

definition example_api :: api where
  "example_api =
     \<lparr>endpoint = ''https://openapi.tuyaeu.com'', access_id = ''my-access-id'',
      access_key = ''my-secret'', token = PyNone\<rparr>"

definition example_headers :: headers where
  "example_headers =
     [(''client_id'', ''my-access-id''),
      (''sign'', ''5A5A5A5A5A5A5A5A5A5A5A5A5A5A5A5AC3C3C3C3C3C3C3C3C3C3C3C3C3C3C3C3''),
      (''t'', ''1704164645000''),
      (''sign_method'', ''HMAC-SHA256''),
      (''access_token'', [])]"

definition example_readings :: "reading list" where
  "example_readings =
     [\<lparr>timestamp = ''2024-01-02 03:04:05'', device_id = ''bf7ecfc010164c849dwpqp'',
       temperature_c = PyFloat (Fin 23.5), humidity_percent = PyFloat (Fin 45.5)\<rparr>,
      \<lparr>timestamp = ''2024-01-02 03:04:05'', device_id = ''bfefd09a22241b31b10cpo'',
       temperature_c = PyFloat (Fin (- 6)), humidity_percent = PyInt 45\<rparr>]"

text \<open>Three environments for the token request alone: in \<open>tokenless_env\<close> it is answered with
  success but without a token, in \<open>unreachable_env\<close> the request raises, in \<open>refused_env\<close>
  it is answered without success.\<close>

definition tokenless_env :: env where
  "tokenless_env =
     example_env\<lparr>requests_get := (\<lambda>n url hdrs. Inr (Json (PyDict [(''success'', PyBool True)])))\<rparr>"

definition unreachable_env :: env where
  "unreachable_env = example_env\<lparr>requests_get := (\<lambda>n url hdrs. Inl ''connection timed out'')\<rparr>"

definition refused_env :: env where
  "refused_env =
     example_env\<lparr>requests_get := (\<lambda>n url hdrs.
        Inr (Json (PyDict [(''success'', PyBool False), (''msg'', PyStr ''sign invalid'')])))\<rparr>"

section \<open>Properties of the float model\<close>

lemma bit_length_bounds:
  "0 < n \<Longrightarrow> 2 ^ (bit_length n - 1) \<le> n \<and> n < 2 ^ bit_length n"
proof (induction n rule: bit_length.induct)
  case (1 n)
  show ?case
  proof (cases "n div 2 = 0")
    case True
    with "1.prems" have "n = 1" by auto
    then show ?thesis by (simp add: bit_length.simps)
  next
    case False
    then have m: "0 < n div 2" by simp
    with "1.prems" "1.IH" have ih: "2 ^ (bit_length (n div 2) - 1) \<le> n div 2"
      "n div 2 < 2 ^ bit_length (n div 2)" by auto
    have b: "bit_length n = Suc (bit_length (n div 2))"
      using "1.prems" by (simp add: bit_length.simps[of n])
    have pos: "0 < bit_length (n div 2)"
      using m by (simp add: bit_length.simps[of "n div 2"])
    then obtain k where k: "bit_length (n div 2) = Suc k" by (cases "bit_length (n div 2)") auto
    from ih(1) have "2 * 2 ^ k \<le> 2 * (n div 2)" by (simp add: k)
    also have "\<dots> \<le> n" by simp
    finally have lo: "2 ^ (bit_length n - 1) \<le> n" by (simp add: b k)
    from ih(2) have "Suc (n div 2) \<le> 2 ^ bit_length (n div 2)" by simp
    then have "2 * Suc (n div 2) \<le> 2 * 2 ^ bit_length (n div 2)" by simp
    moreover have "n < 2 * Suc (n div 2)" by simp
    ultimately have hi: "n < 2 ^ bit_length n" by (simp add: b)
    from lo hi show ?thesis by simp
  qed
qed

lemma pow2_powr: "pow2 k = 2 powr (of_int k)"
proof (cases "0 \<le> k")
  case True
  then have "2 powr (of_int k) = (2::real) powr (real (nat k))" by simp
  also have "\<dots> = 2 ^ nat k" by (simp add: powr_realpow)
  finally show ?thesis using True by (simp add: pow2_def)
next
  case False
  then have "2 powr (of_int k) = (2::real) powr (- real (nat (- k)))" by simp
  also have "\<dots> = 1 / 2 ^ nat (- k)" by (simp add: powr_minus powr_realpow divide_inverse)
  finally show ?thesis using False by (simp add: pow2_def)
qed

lemma pow2_pos [simp]: "0 < pow2 k"
  by (simp add: pow2_powr)

lemma pow2_nonneg [simp]: "0 \<le> pow2 k"
  using pow2_pos[of k] by (rule less_imp_le)

lemma pow2_add: "pow2 (a + b) = pow2 a * pow2 b"
  by (simp add: pow2_powr powr_add)

lemma pow2_mono: "a \<le> b \<Longrightarrow> pow2 a \<le> pow2 b"
  by (simp add: pow2_powr)

lemma pow2_nat: "pow2 (int n) = 2 ^ n"
  by (simp add: pow2_def)

lemma pow2_neg_nat: "pow2 (- int m) = 1 / 2 ^ m"
  by (simp add: pow2_powr powr_minus powr_realpow divide_inverse)

lemma exponent_bounds:
  assumes "x \<noteq> 0"
  shows "pow2 (exponent x) \<le> \<bar>x\<bar> \<and> \<bar>x\<bar> < pow2 (exponent x + 1)"
proof (cases "1 \<le> \<bar>x\<bar>")
  case True
  define n where "n = nat \<lfloor>\<bar>x\<bar>\<rfloor>"
  have n1: "0 < n" using True by (simp add: n_def)
  have rn: "real n = of_int \<lfloor>\<bar>x\<bar>\<rfloor>" by (simp add: n_def)
  have nx: "real n \<le> \<bar>x\<bar>" "\<bar>x\<bar> < real n + 1"
    using floor_correct[of "\<bar>x\<bar>"] by (simp_all add: rn)
  note b = bit_length_bounds[OF n1]
  have bpos: "0 < bit_length n" using n1 by (simp add: bit_length.simps[of n])
  have e: "exponent x = int (bit_length n - 1)"
    using True bpos by (simp add: exponent_def n_def)
  have "pow2 (exponent x) = 2 ^ (bit_length n - 1)" by (simp add: e pow2_nat)
  also have "\<dots> \<le> real n" using b by (metis of_nat_le_iff of_nat_numeral of_nat_power)
  finally have lo: "pow2 (exponent x) \<le> \<bar>x\<bar>" using nx by simp
  have "exponent x + 1 = int (bit_length n)" using bpos by (simp add: e)
  then have "pow2 (exponent x + 1) = 2 ^ bit_length n" by (simp add: pow2_nat)
  moreover have "real n + 1 \<le> 2 ^ bit_length n"
    using b by (metis Suc_leI of_nat_Suc of_nat_le_iff of_nat_numeral of_nat_power add.commute)
  ultimately have "\<bar>x\<bar> < pow2 (exponent x + 1)" using nx by simp
  with lo show ?thesis by simp
next
  case False
  define y where "y = 1 / \<bar>x\<bar>"
  have y1: "1 < y" using False assms by (simp add: y_def)
  define k where "k = nat (\<lceil>y\<rceil> - 1)"
  have c2: "2 \<le> \<lceil>y\<rceil>" using y1 by linarith
  then have k1: "0 < k" by (simp add: k_def)
  have rk: "real k = of_int \<lceil>y\<rceil> - 1" using c2 by (simp add: k_def)
  have ky: "real k < y" "y \<le> real k + 1"
    using ceiling_correct[of y] by (simp_all add: rk)
  note b = bit_length_bounds[OF k1]
  have bpos: "0 < bit_length k" using k1 by (simp add: bit_length.simps[of k])
  have e: "exponent x = - int (bit_length k)"
    using False by (simp add: exponent_def k_def y_def)
  have hi: "real k + 1 \<le> 2 ^ bit_length k"
    using b by (metis Suc_leI of_nat_Suc of_nat_le_iff of_nat_numeral of_nat_power add.commute)
  have lo: "(2::real) ^ (bit_length k - 1) \<le> real k"
    using b by (metis of_nat_le_iff of_nat_numeral of_nat_power)
  have xpos: "0 < \<bar>x\<bar>" using assms by simp
  have "y \<le> 2 ^ bit_length k" using ky hi by simp
  then have "1 / 2 ^ bit_length k \<le> \<bar>x\<bar>"
    using xpos by (simp add: y_def field_simps)
  moreover have "pow2 (exponent x) = 1 / 2 ^ bit_length k"
    by (simp only: e pow2_neg_nat)
  ultimately have l: "pow2 (exponent x) \<le> \<bar>x\<bar>" by simp
  have "2 ^ (bit_length k - 1) < y" using ky(1) lo by linarith
  then have "\<bar>x\<bar> < 1 / 2 ^ (bit_length k - 1)"
    using xpos by (simp add: y_def field_simps)
  moreover have "pow2 (exponent x + 1) = 1 / 2 ^ (bit_length k - 1)"
  proof -
    have "exponent x + 1 = - int (bit_length k - 1)" using bpos by (simp add: e)
    then show ?thesis by (simp only: pow2_neg_nat)
  qed
  ultimately have "\<bar>x\<bar> < pow2 (exponent x + 1)" by simp
  with l show ?thesis by simp
qed

lemma exponent_unique:
  assumes "pow2 e \<le> \<bar>x\<bar>" "\<bar>x\<bar> < pow2 (e + 1)"
  shows "exponent x = e"
proof -
  have "0 < \<bar>x\<bar>" using assms(1) pow2_pos[of e] by linarith
  then have "x \<noteq> 0" by simp
  note b = exponent_bounds[OF this]
  have "\<not> exponent x < e"
  proof
    assume "exponent x < e"
    then have "pow2 (exponent x + 1) \<le> pow2 e" by (intro pow2_mono) simp
    with b assms show False by simp
  qed
  moreover have "\<not> e < exponent x"
  proof
    assume "e < exponent x"
    then have "pow2 (e + 1) \<le> pow2 (exponent x)" by (intro pow2_mono) simp
    with b assms show False by simp
  qed
  ultimately show ?thesis by simp
qed

lemma round_half_even_minus: "round_half_even (- y) = - round_half_even y"
proof (cases "y = of_int \<lfloor>y\<rfloor>")
  case True
  then obtain f where y: "y = of_int f" ..
  show ?thesis by (simp add: y round_half_even_def flip: of_int_minus)
next
  case False
  then have c: "\<lceil>y\<rceil> = \<lfloor>y\<rfloor> + 1" by (simp add: ceiling_altdef)
  have f: "\<lfloor>- y\<rfloor> = - \<lfloor>y\<rfloor> - 1" by (simp add: floor_minus c)
  show ?thesis
    unfolding round_half_even_def Let_def f
    by (auto simp: algebra_simps)
qed

lemma round_half_even_floor:
  "\<lfloor>y\<rfloor> \<le> round_half_even y" "round_half_even y \<le> \<lfloor>y\<rfloor> + 1"
  by (simp_all add: round_half_even_def Let_def)

lemma round_half_even_ge:
  assumes "of_int a \<le> y"
  shows "a \<le> round_half_even y"
proof -
  have "a \<le> \<lfloor>y\<rfloor>" using assms by (simp add: le_floor_iff)
  with round_half_even_floor(1)[of y] show ?thesis by simp
qed

lemma round_half_even_le: "y \<le> of_int b \<Longrightarrow> round_half_even y \<le> b"
proof (cases "y = of_int b")
  case True
  then show ?thesis by (simp add: round_half_even_def)
next
  case False
  assume "y \<le> of_int b"
  with False have "y < of_int b" by simp
  then have "\<lfloor>y\<rfloor> < b" by (simp add: floor_less_iff)
  with round_half_even_floor(2)[of y] show ?thesis by simp
qed

lemma round_half_even_tie_up:
  assumes "even a" "of_int a - 1 / 2 \<le> y"
  shows "a \<le> round_half_even y"
proof (cases "of_int a \<le> y")
  case True
  then show ?thesis by (rule round_half_even_ge)
next
  case False
  then have "\<lfloor>y\<rfloor> < a" by (simp add: floor_less_iff)
  moreover have "a - 1 \<le> \<lfloor>y\<rfloor>" using assms(2) by (simp add: le_floor_iff)
  ultimately have f: "\<lfloor>y\<rfloor> = a - 1" by simp
  then have "odd \<lfloor>y\<rfloor>" using assms(1) by simp
  moreover have "1 / 2 \<le> y - of_int \<lfloor>y\<rfloor>" using assms(2) by (simp add: f)
  ultimately show ?thesis
    by (auto simp: round_half_even_def Let_def f)
qed

lemma round_half_even_below_tie:
  assumes "y < of_int a - 1 / 2"
  shows "round_half_even y \<le> a - 1"
proof (cases "\<lfloor>y\<rfloor> = a - 1")
  case True
  then have "y - of_int \<lfloor>y\<rfloor> < 1 / 2" using assms by simp
  then show ?thesis by (simp add: round_half_even_def Let_def True)
next
  case False
  have "y < of_int a" using assms by simp
  then have "\<lfloor>y\<rfloor> < a" by (simp add: floor_less_iff)
  with False have "\<lfloor>y\<rfloor> + 1 \<le> a - 1" by simp
  with round_half_even_floor(2)[of y] show ?thesis by simp
qed

lemma exponent_minus: "exponent (- x) = exponent x"
  by (simp add: exponent_def)

lemma fl_minus: "fl (- x) = - fl x"
  by (simp add: fl_def exponent_minus round_half_even_minus Let_def)

lemma pow2_less_iff: "pow2 a < pow2 b \<longleftrightarrow> a < b"
  by (simp add: pow2_powr)

lemma pow2_diff: "pow2 (a - b) = pow2 a / pow2 b"
  by (simp add: pow2_powr powr_diff)

lemma pow2_numeral: "pow2 (numeral k) = 2 ^ numeral k"
  by (simp add: pow2_def)

lemma fl_normal:
  assumes "x \<noteq> 0" "- 1022 \<le> exponent x"
  shows "fl x = of_int (round_half_even (x / pow2 (exponent x - 52))) * pow2 (exponent x - 52)"
proof -
  have "max (exponent x - 52) (- 1074) = exponent x - 52" using assms(2) by simp
  then show ?thesis using assms(1) by (simp add: fl_def Let_def)
qed

lemma fl_overflow_ge:
  assumes "2 ^ 1024 - 2 ^ 970 \<le> x"
  shows "2 ^ 1024 \<le> fl x"
proof -
  have big: "pow2 1023 \<le> x" using assms by (simp add: pow2_numeral)
  then have x0: "0 < x" using pow2_pos[of 1023] by linarith
  then have xn: "x \<noteq> 0" "\<bar>x\<bar> = x" by simp_all
  note b = exponent_bounds[OF xn(1), unfolded xn(2)]
  define e where "e = exponent x"
  have "pow2 1023 < pow2 (e + 1)" using b big by (simp add: e_def)
  then have e: "1023 \<le> e" by (simp add: pow2_less_iff)
  have f: "fl x = of_int (round_half_even (x / pow2 (e - 52))) * pow2 (e - 52)"
    unfolding e_def using e by (intro fl_normal xn) (simp add: e_def)
  show ?thesis
  proof (cases "e = 1023")
    case True
    have y: "of_int (2 ^ 53) - 1 / 2 \<le> x / pow2 (e - 52)"
      using assms by (simp add: True pow2_numeral field_simps)
    have "2 ^ 53 \<le> round_half_even (x / pow2 (e - 52))"
      by (rule round_half_even_tie_up[OF _ y]) simp
    then have "of_int (2 ^ 53) \<le> (of_int (round_half_even (x / pow2 (e - 52))) :: real)"
      by (simp only: of_int_le_iff)
    then have "of_int (2 ^ 53) * pow2 (e - 52) \<le> fl x"
      unfolding f by (intro mult_right_mono) simp_all
    then show ?thesis by (simp add: True pow2_numeral)
  next
    case False
    with e have e2: "1024 \<le> e" by simp
    have "pow2 52 \<le> x / pow2 (e - 52)"
    proof -
      have "pow2 52 = pow2 e / pow2 (e - 52)" by (simp flip: pow2_diff)
      also have "\<dots> \<le> x / pow2 (e - 52)" using b by (intro divide_right_mono) (simp_all add: e_def)
      finally show ?thesis .
    qed
    then have "of_int (2 ^ 52) \<le> x / pow2 (e - 52)" by (simp add: pow2_numeral)
    then have "2 ^ 52 \<le> round_half_even (x / pow2 (e - 52))" by (rule round_half_even_ge)
    then have "of_int (2 ^ 52) \<le> (of_int (round_half_even (x / pow2 (e - 52))) :: real)"
      by (simp only: of_int_le_iff)
    then have "of_int (2 ^ 52) * pow2 (e - 52) \<le> fl x"
      unfolding f by (intro mult_right_mono) simp_all
    moreover have "of_int (2 ^ 52) * pow2 (e - 52) = pow2 e"
    proof -
      have "e = 52 + (e - 52)" by simp
      then have "pow2 e = pow2 (52 + (e - 52))" by (rule arg_cong)
      also have "\<dots> = pow2 52 * pow2 (e - 52)" by (rule pow2_add)
      finally show ?thesis by (simp add: pow2_numeral)
    qed
    moreover have "pow2 1024 \<le> pow2 e" using e2 by (rule pow2_mono)
    ultimately show ?thesis by (simp add: pow2_numeral)
  qed
qed

lemma fl_overflow_lt:
  assumes "1 \<le> x" "x < 2 ^ 1024 - 2 ^ 970"
  shows "0 \<le> fl x \<and> fl x < 2 ^ 1024"
proof -
  have xn: "x \<noteq> 0" "\<bar>x\<bar> = x" using assms by simp_all
  note b = exponent_bounds[OF xn(1), unfolded xn(2)]
  define e where "e = exponent x"
  have "pow2 0 < pow2 (e + 1)" using b assms by (simp add: e_def pow2_def)
  then have e0: "0 \<le> e" by (simp add: pow2_less_iff)
  have "pow2 e < pow2 1024" using b assms by (simp add: e_def pow2_numeral)
  then have e1: "e \<le> 1023" by (simp add: pow2_less_iff)
  have f: "fl x = of_int (round_half_even (x / pow2 (e - 52))) * pow2 (e - 52)"
    unfolding e_def using e0 by (intro fl_normal xn) (simp add: e_def)
  have "of_int 0 \<le> x / pow2 (e - 52)" using assms by simp
  then have "0 \<le> round_half_even (x / pow2 (e - 52))" by (rule round_half_even_ge)
  then have nonneg: "0 \<le> fl x" unfolding f by simp
  have "fl x < 2 ^ 1024"
  proof (cases "e = 1023")
    case True
    have y: "x / pow2 (e - 52) < of_int (2 ^ 53) - 1 / 2"
      using assms by (simp add: True pow2_numeral field_simps)
    then have "round_half_even (x / pow2 (e - 52)) \<le> 2 ^ 53 - 1"
      by (rule round_half_even_below_tie)
    then have "(of_int (round_half_even (x / pow2 (e - 52))) :: real) \<le> of_int (2 ^ 53 - 1)"
      by (simp only: of_int_le_iff)
    then have "fl x \<le> of_int (2 ^ 53 - 1) * pow2 (e - 52)"
      unfolding f by (intro mult_right_mono) simp_all
    then show ?thesis by (simp add: True pow2_numeral)
  next
    case False
    with e1 have e2: "e + 1 \<le> 1023" by simp
    have "x / pow2 (e - 52) \<le> pow2 53"
    proof -
      have "x / pow2 (e - 52) \<le> pow2 (e + 1) / pow2 (e - 52)"
        using b by (intro divide_right_mono) (simp_all add: e_def)
      also have "\<dots> = pow2 53" by (simp flip: pow2_diff)
      finally show ?thesis .
    qed
    then have "x / pow2 (e - 52) \<le> of_int (2 ^ 53)" by (simp add: pow2_numeral)
    then have "round_half_even (x / pow2 (e - 52)) \<le> 2 ^ 53" by (rule round_half_even_le)
    then have "(of_int (round_half_even (x / pow2 (e - 52))) :: real) \<le> of_int (2 ^ 53)"
      by (simp only: of_int_le_iff)
    then have "fl x \<le> of_int (2 ^ 53) * pow2 (e - 52)"
      unfolding f by (intro mult_right_mono) simp_all
    moreover have "of_int (2 ^ 53) * pow2 (e - 52) = pow2 (e + 1)"
    proof -
      have "e + 1 = 53 + (e - 52)" by simp
      then have "pow2 (e + 1) = pow2 (53 + (e - 52))" by (rule arg_cong)
      also have "\<dots> = pow2 53 * pow2 (e - 52)" by (rule pow2_add)
      finally show ?thesis by (simp add: pow2_numeral)
    qed
    moreover have "pow2 (e + 1) \<le> pow2 1023" using e2 by (rule pow2_mono)
    ultimately show ?thesis by (simp add: pow2_numeral)
  qed
  with nonneg show ?thesis by simp
qed

lemma float_of_int_overflow:
  "float_of_int n = Inl OverflowError \<longleftrightarrow> 2 ^ 1024 - 2 ^ 970 \<le> \<bar>n\<bar>"
proof -
  have pos: "2 ^ 1024 \<le> \<bar>fl (of_int m)\<bar> \<longleftrightarrow> 2 ^ 1024 - 2 ^ 970 \<le> m" if "0 \<le> m" for m :: int
  proof (cases "m = 0")
    case True
    then show ?thesis by (simp add: fl_def)
  next
    case False
    with that have m1: "1 \<le> (of_int m :: real)" by simp
    show ?thesis
    proof (cases "2 ^ 1024 - 2 ^ 970 \<le> m")
      case True
      then have "(of_int (2 ^ 1024 - 2 ^ 970) :: real) \<le> of_int m"
        by (simp only: of_int_le_iff)
      then have "(2::real) ^ 1024 - 2 ^ 970 \<le> of_int m"
        by simp
      from fl_overflow_ge[OF this] True show ?thesis by simp
    next
      case False
      then have "m < 2 ^ 1024 - 2 ^ 970" by simp
      then have "(of_int m :: real) < of_int (2 ^ 1024 - 2 ^ 970)"
        by (simp only: of_int_less_iff)
      then have "of_int m < (2::real) ^ 1024 - 2 ^ 970"
        by simp
      from fl_overflow_lt[OF m1 this] False show ?thesis by simp
    qed
  qed
  have "2 ^ 1024 \<le> \<bar>fl (of_int n)\<bar> \<longleftrightarrow> 2 ^ 1024 - 2 ^ 970 \<le> \<bar>n\<bar>"
  proof (cases "0 \<le> n")
    case True
    with pos[of n] show ?thesis by simp
  next
    case False
    then have "0 \<le> - n" by simp
    from pos[OF this] False show ?thesis by (simp add: fl_minus)
  qed
  then show ?thesis by (simp add: float_of_int_def)
qed

lemma fl_ge_pow2:
  assumes "pow2 k \<le> x" "0 \<le> k"
  shows "pow2 k \<le> fl x"
proof -
  have "pow2 0 \<le> pow2 k" using assms(2) by (rule pow2_mono)
  then have x1: "1 \<le> x" using assms(1) by (simp add: pow2_def)
  then have xn: "x \<noteq> 0" "\<bar>x\<bar> = x" by simp_all
  note b = exponent_bounds[OF xn(1), unfolded xn(2)]
  define e where "e = exponent x"
  have "pow2 k < pow2 (e + 1)" using b assms(1) by (simp add: e_def)
  then have ke: "k \<le> e" by (simp add: pow2_less_iff)
  have f: "fl x = of_int (round_half_even (x / pow2 (e - 52))) * pow2 (e - 52)"
    unfolding e_def using ke assms(2) by (intro fl_normal xn) (simp add: e_def)
  have "pow2 52 \<le> x / pow2 (e - 52)"
  proof -
    have "pow2 52 = pow2 e / pow2 (e - 52)" by (simp flip: pow2_diff)
    also have "\<dots> \<le> x / pow2 (e - 52)" using b by (intro divide_right_mono) (simp_all add: e_def)
    finally show ?thesis .
  qed
  then have "of_int (2 ^ 52) \<le> x / pow2 (e - 52)" by (simp add: pow2_numeral)
  then have "2 ^ 52 \<le> round_half_even (x / pow2 (e - 52))" by (rule round_half_even_ge)
  then have "of_int (2 ^ 52) \<le> (of_int (round_half_even (x / pow2 (e - 52))) :: real)"
    by (simp only: of_int_le_iff)
  then have "of_int (2 ^ 52) * pow2 (e - 52) \<le> fl x"
    unfolding f by (intro mult_right_mono) simp_all
  moreover have "of_int (2 ^ 52) * pow2 (e - 52) = pow2 e"
  proof -
    have "e = 52 + (e - 52)" by simp
    then have "pow2 e = pow2 (52 + (e - 52))" by (rule arg_cong)
    also have "\<dots> = pow2 52 * pow2 (e - 52)" by (rule pow2_add)
    finally show ?thesis by (simp add: pow2_numeral)
  qed
  moreover have "pow2 k \<le> pow2 e" using ke by (rule pow2_mono)
  ultimately show ?thesis by simp
qed

lemma fl_abs_ge_one: "1 \<le> \<bar>x\<bar> \<Longrightarrow> 1 \<le> \<bar>fl x\<bar>"
proof -
  have pos: "1 \<le> fl y" if "1 \<le> y" for y
    using fl_ge_pow2[of 0 y] that by (simp add: pow2_def)
  assume a: "1 \<le> \<bar>x\<bar>"
  show ?thesis
  proof (cases "0 \<le> x")
    case True
    with a pos[of x] show ?thesis by simp
  next
    case False
    with a have "1 \<le> - x" by simp
    from pos[OF this] show ?thesis by (simp add: fl_minus)
  qed
qed

lemma fl_abs_ge_32: "32 \<le> \<bar>x\<bar> \<Longrightarrow> 32 \<le> \<bar>fl x\<bar>"
proof -
  have pos: "32 \<le> fl y" if "32 \<le> y" for y
    using fl_ge_pow2[of 5 y] that by (simp add: pow2_def)
  assume a: "32 \<le> \<bar>x\<bar>"
  show ?thesis
  proof (cases "0 \<le> x")
    case True
    with a pos[of x] show ?thesis by simp
  next
    case False
    with a have "32 \<le> - x" by simp
    from pos[OF this] show ?thesis by (simp add: fl_minus)
  qed
qed

lemma float_div10_big: "10 \<le> \<bar>x\<bar> \<Longrightarrow> float_div10 (Fin x) = Fin (fl (x / 10))"
proof -
  assume "10 \<le> \<bar>x\<bar>"
  then have "1 \<le> \<bar>x / 10\<bar>" by simp
  then have "1 \<le> \<bar>fl (x / 10)\<bar>" by (rule fl_abs_ge_one)
  then have "fl (x / 10) \<noteq> 0" by auto
  then show ?thesis by simp
qed

lemma div10_int:
  assumes "32 \<le> \<bar>n\<bar>" "\<bar>n\<bar> < 2 ^ 1024 - 2 ^ 970"
  shows "div10 (PyInt n) = Inr (PyFloat (Fin (fl (fl (of_int n) / 10))))"
proof -
  have "float_of_int n \<noteq> Inl OverflowError"
    using assms(2) by (simp add: float_of_int_overflow)
  then have c: "float_of_int n = Inr (Fin (fl (of_int n)))"
    by (simp add: float_of_int_def split: if_splits)
  have "32 \<le> \<bar>of_int n :: real\<bar>" using assms(1) by linarith
  then have "32 \<le> \<bar>fl (of_int n)\<bar>" by (rule fl_abs_ge_32)
  then have "float_div10 (Fin (fl (of_int n))) = Fin (fl (fl (of_int n) / 10))"
    by (intro float_div10_big) simp
  with c show ?thesis by (simp add: div10.simps)
qed

lemma div10_int_overflow:
  assumes "2 ^ 1024 - 2 ^ 970 \<le> \<bar>n\<bar>"
  shows "div10 (PyInt n) = Inl OverflowError"
proof -
  have "float_of_int n = Inl OverflowError"
    using assms by (simp only: float_of_int_overflow)
  then show ?thesis by (simp add: div10.simps)
qed

lemmas fl_eval = fl_def exponent_def bit_length.simps pow2_def round_half_even_def Let_def

lemma fl_examples:
  "fl 235 = 235" "fl (47 / 2) = 47 / 2"
  "fl 455 = 455" "fl (91 / 2) = 91 / 2"
  "fl (- 60) = - 60" "fl (- 6) = - 6"
  by (simp_all add: fl_eval)

lemma div10_examples:
  "div10 (PyInt 235) = Inr (PyFloat (Fin 23.5))"
  "div10 (PyInt 455) = Inr (PyFloat (Fin 45.5))"
  "div10 (PyInt (- 60)) = Inr (PyFloat (Fin (- 6)))"
  by (simp_all add: div10_int fl_examples)

lemma round_half_even_of_int: "round_half_even (of_int k) = k"
  by (simp add: round_half_even_def)

lemma fl_int_exact_pos:
  assumes "0 < n" "n \<le> 2 ^ 53"
  shows "fl (of_int n) = of_int n"
proof -
  define x where "x = (of_int n :: real)"
  have x1: "1 \<le> x" using assms(1) by (simp add: x_def)
  then have xn: "x \<noteq> 0" "\<bar>x\<bar> = x" by simp_all
  have x53: "x \<le> 2 ^ 53"
  proof -
    have "(of_int n :: real) \<le> of_int (2 ^ 53)" using assms(2) by (simp only: of_int_le_iff)
    then show ?thesis by (simp add: x_def)
  qed
  note b = exponent_bounds[OF xn(1), unfolded xn(2)]
  define e where "e = exponent x"
  have "pow2 0 < pow2 (e + 1)" using b x1 by (simp add: e_def pow2_def)
  then have e0: "0 \<le> e" by (simp add: pow2_less_iff)
  have "pow2 e < pow2 54"
  proof -
    have "pow2 e \<le> x" using b by (simp add: e_def)
    also have "x \<le> 2 ^ 53" by (rule x53)
    also have "(2::real) ^ 53 < pow2 54" by (simp add: pow2_numeral)
    finally show ?thesis .
  qed
  then have e53: "e \<le> 53" by (simp add: pow2_less_iff)
  have f: "fl x = of_int (round_half_even (x / pow2 (e - 52))) * pow2 (e - 52)"
    unfolding e_def using e0 by (intro fl_normal xn) (simp add: e_def)
  show ?thesis
  proof (cases "e = 53")
    case True
    then have "pow2 53 \<le> x" using b by (simp add: e_def)
    then have "x = 2 ^ 53" using x53 by (simp add: pow2_numeral)
    moreover have "pow2 (53 - 52) = 2" by (simp add: pow2_def)
    moreover have "(2::real) ^ 53 / 2 = of_int (2 ^ 52)" by simp
    ultimately have "fl x = of_int (round_half_even (of_int (2 ^ 52))) * 2"
      using f True by simp
    also have "\<dots> = 2 ^ 53" by (simp only: round_half_even_of_int) simp
    finally show ?thesis using \<open>x = 2 ^ 53\<close> by (simp add: x_def)
  next
    case False
    with e53 have le: "e \<le> 52" by simp
    define m where "m = nat (52 - e)"
    have "e - 52 = - int m" using le by (simp add: m_def)
    then have p: "pow2 (e - 52) = 1 / 2 ^ m" by (simp only: pow2_neg_nat)
    have "x / pow2 (e - 52) = of_int (n * 2 ^ m)" by (simp add: p x_def)
    then have "fl x = of_int (n * 2 ^ m) * pow2 (e - 52)"
      using f by (simp only: round_half_even_of_int)
    also have "\<dots> = of_int n" by (simp add: p)
    finally show ?thesis by (simp add: x_def)
  qed
qed

lemma fl_int_exact:
  assumes "\<bar>n\<bar> \<le> 2 ^ 53"
  shows "fl (of_int n) = of_int n"
proof -
  consider "n = 0" | "0 < n" | "n < 0" by linarith
  then show ?thesis
  proof cases
    case 1
    then show ?thesis by (simp add: fl_def)
  next
    case 2
    with assms show ?thesis by (intro fl_int_exact_pos) simp_all
  next
    case 3
    with assms have "fl (of_int (- n)) = of_int (- n)" by (intro fl_int_exact_pos) simp_all
    then show ?thesis by (simp add: fl_minus)
  qed
qed

section \<open>Properties of the reading extractor\<close>

lemma extract_point_dict:
  "extract_point (PyDict kvs) th =
     (let code = (case map_of kvs ''code'' of None \<Rightarrow> PyNone | Some c \<Rightarrow> c);
          v = (case map_of kvs ''value'' of None \<Rightarrow> PyNone | Some x \<Rightarrow> x)
      in if code_in code temperature_codes then
           (case scale_temp v of Inl e \<Rightarrow> Inl e | Inr temp \<Rightarrow> Inr (temp, snd th))
         else if code_in code humidity_codes then
           (case scale_humidity v of Inl e \<Rightarrow> Inl e | Inr humidity \<Rightarrow> Inr (fst th, humidity))
         else Inr th)"
  by (simp add: extract_point_def Let_def)

lemma extract_loop_append:
  "extract_loop xs th = Inr th1 \<Longrightarrow> extract_loop (xs @ ys) th = extract_loop ys th1"
  by (induction xs arbitrary: th) (auto split: sum.splits)

lemma extract_point_no_temp:
  assumes "\<not> has_code dp temperature_codes" "extract_point dp th0 = Inr th1"
  shows "\<exists>h'. extract_point dp (t, h) = Inr (t, h')"
proof (cases dp)
  case (PyDict kvs)
  with assms show ?thesis
    by (auto simp: extract_point_dict has_code_def Let_def split: sum.splits if_splits)
qed (use assms in \<open>simp_all add: extract_point_def\<close>)

lemma extract_loop_no_temp:
  "\<forall>dp \<in> set dps. \<not> has_code dp temperature_codes \<Longrightarrow> extract_loop dps th0 = Inr th1 \<Longrightarrow>
     \<exists>h'. extract_loop dps (t, h) = Inr (t, h')"
proof (induction dps arbitrary: th0 h)
  case Nil
  then show ?case by simp
next
  case (Cons dp dps)
  from Cons.prems(2) obtain th2 where p: "extract_point dp th0 = Inr th2"
    and l: "extract_loop dps th2 = Inr th1"
    by (auto split: sum.splits)
  from Cons.prems(1) have n: "\<not> has_code dp temperature_codes" by simp
  from extract_point_no_temp[OF n p] obtain h1 where "extract_point dp (t, h) = Inr (t, h1)"
    by blast
  moreover from Cons.IH[OF _ l] Cons.prems(1) obtain h2
    where "extract_loop dps (t, h1) = Inr (t, h2)" by auto
  ultimately show ?case by simp
qed

lemma extract_point_no_hum:
  assumes "\<not> has_code dp humidity_codes" "extract_point dp th0 = Inr th1"
  shows "\<exists>t'. extract_point dp (t, h) = Inr (t', h)"
proof (cases dp)
  case (PyDict kvs)
  with assms show ?thesis
    by (auto simp: extract_point_dict has_code_def Let_def split: sum.splits if_splits)
qed (use assms in \<open>simp_all add: extract_point_def\<close>)

lemma extract_loop_no_hum:
  "\<forall>dp \<in> set dps. \<not> has_code dp humidity_codes \<Longrightarrow> extract_loop dps th0 = Inr th1 \<Longrightarrow>
     \<exists>t'. extract_loop dps (t, h) = Inr (t', h)"
proof (induction dps arbitrary: th0 t)
  case Nil
  then show ?case by simp
next
  case (Cons dp dps)
  from Cons.prems(2) obtain th2 where p: "extract_point dp th0 = Inr th2"
    and l: "extract_loop dps th2 = Inr th1"
    by (auto split: sum.splits)
  from Cons.prems(1) have n: "\<not> has_code dp humidity_codes" by simp
  from extract_point_no_hum[OF n p] obtain t1 where "extract_point dp (t, h) = Inr (t1, h)"
    by blast
  moreover from Cons.IH[OF _ l] Cons.prems(1) obtain t2
    where "extract_loop dps (t1, h) = Inr (t2, h)" by auto
  ultimately show ?case by simp
qed

lemma humidity_code_not_temperature:
  "c \<in> set humidity_codes \<Longrightarrow> c \<notin> set temperature_codes"
  by (auto simp: humidity_codes_def temperature_codes_def)

lemma scale_temp_value:
  assumes "\<forall>n. v = PyInt n \<longrightarrow> \<bar>n\<bar> < 2 ^ 1024 - 2 ^ 970"
  shows "scale_temp v =
           Inr (case v of
                  PyInt n \<Rightarrow>
                    if 50 < \<bar>n\<bar> then PyFloat (Fin (fl (fl (of_int n) / 10))) else PyInt n
                | PyFloat x \<Rightarrow>
                    (case x of
                       Fin r \<Rightarrow> if 50 < \<bar>r\<bar> then PyFloat (Fin (fl (r / 10))) else v
                     | _ \<Rightarrow> v)
                | _ \<Rightarrow> v)"
proof (cases v)
  case (PyInt n)
  with assms have "\<bar>n\<bar> < 2 ^ 1024 - 2 ^ 970" by simp
  then show ?thesis
    by (simp add: PyInt scale_temp_def div10_int)
next
  case (PyFloat x)
  then show ?thesis
    by (cases x) (simp_all add: scale_temp_def float_div10_big del: float_div10.simps(1))
qed (simp_all add: scale_temp_def)

lemma scale_humidity_value:
  assumes "\<forall>n. v = PyInt n \<longrightarrow> n < 2 ^ 1024 - 2 ^ 970"
  shows "scale_humidity v =
           Inr (case v of
                  PyInt n \<Rightarrow>
                    if 100 < n then PyFloat (Fin (fl (fl (of_int n) / 10))) else PyInt n
                | PyFloat x \<Rightarrow>
                    (case x of
                       Fin r \<Rightarrow> if 100 < r then PyFloat (Fin (fl (r / 10))) else v
                     | _ \<Rightarrow> v)
                | _ \<Rightarrow> v)"
proof (cases v)
  case (PyInt n)
  with assms have "n < 2 ^ 1024 - 2 ^ 970" by simp
  then show ?thesis
    by (simp add: PyInt scale_humidity_def div10_int)
next
  case (PyFloat x)
  then show ?thesis
    by (cases x) (simp_all add: scale_humidity_def float_div10_big del: float_div10.simps(1))
qed (simp_all add: scale_humidity_def)

lemmas extract_eval = extract_point_dict temperature_codes_def humidity_codes_def
  scale_temp_def scale_humidity_def div10_examples

text \<open>
  Claim C2, as stated: every numeric temperature value \<open>v\<close> with \<open>|v| > 50\<close> yields \<open>v / 10\<close>. It
  does not for an integer beyond the range of a double: \<^verbatim>\<open>value / 10.0\<close> converts the integer
  to a float first, and on \<open>10\<^sup>3\<^sup>0\<^sup>9\<close> that raises \<^verbatim>\<open>OverflowError\<close>, so the extractor returns
  nothing.
\<close>

theorem temperature_overflow_counterexample:
  "extract_temp_humidity
     (PyList [PyDict [(''code'', PyStr ''temp_current''), (''value'', PyInt (10 ^ 309))]])
   = Inl OverflowError"
proof -
  have "(2::int) ^ 1024 - 2 ^ 970 \<le> \<bar>10 ^ 309\<bar>" by simp
  then have "div10 (PyInt (10 ^ 309)) = Inl OverflowError"
    by (rule div10_int_overflow)
  then show ?thesis
    by (simp add: extract_point_dict temperature_codes_def scale_temp_def)
qed

text \<open>
  Claim C2, amended. A point with a recognized temperature code and the value \<open>v\<close> decides
  the temperature of a status list when no later point has a temperature code and the
  other points raise nothing. A float \<open>v\<close> with \<open>|v| > 50\<close> gives the double nearest to
  \<open>v / 10\<close>. An integer \<open>v\<close> with \<open>|v| > 50\<close> gives what \<^verbatim>\<open>v / 10.0\<close> computes: the double
  nearest to a tenth of the double nearest to \<open>v\<close>, which is the double nearest to \<open>v / 10\<close>
  when \<open>|v| \<le> 2\<^sup>5\<^sup>3\<close>; but from \<open>|v| = 2\<^sup>1\<^sup>0\<^sup>2\<^sup>4 - 2\<^sup>9\<^sup>7\<^sup>0\<close> on, beyond the range of a double, the
  extractor raises \<^verbatim>\<open>OverflowError\<close>. Any other number (also an infinity or \<^verbatim>\<open>nan\<close>) is
  returned as it came, and a value that is not a number passes through unchanged. In
  particular 235 gives 23.5, 23 gives 23 and -60 gives -6.0.
\<close>

theorem temperature_scaling:
  assumes c: "c \<in> set temperature_codes"
    and code: "map_of kvs ''code'' = Some (PyStr c)"
    and val: "map_of kvs ''value'' = Some v"
    and pre: "extract_loop pre (PyNone, PyNone) = Inr th"
    and post: "\<forall>dp \<in> set post. \<not> has_code dp temperature_codes"
    and post_ok: "extract_loop post (PyNone, PyNone) = Inr th_post"
  shows "((\<forall>n. v = PyInt n \<longrightarrow> \<bar>n\<bar> < 2 ^ 1024 - 2 ^ 970) \<longrightarrow>
          (\<exists>h. extract_temp_humidity (PyList (pre @ PyDict kvs # post)) =
             Inr (case v of
                    PyInt n \<Rightarrow>
                      if 50 < \<bar>n\<bar> then PyFloat (Fin (fl (fl (of_int n) / 10))) else PyInt n
                  | PyFloat x \<Rightarrow>
                      (case x of
                         Fin r \<Rightarrow> if 50 < \<bar>r\<bar> then PyFloat (Fin (fl (r / 10))) else v
                       | _ \<Rightarrow> v)
                  | _ \<Rightarrow> v, h)))
       \<and> (\<forall>n. v = PyInt n \<and> 50 < \<bar>n\<bar> \<and> \<bar>n\<bar> \<le> 2 ^ 53 \<longrightarrow>
            (\<exists>h. extract_temp_humidity (PyList (pre @ PyDict kvs # post)) =
               Inr (PyFloat (Fin (fl (of_int n / 10))), h)))
       \<and> (\<forall>n. v = PyInt n \<and> 2 ^ 1024 - 2 ^ 970 \<le> \<bar>n\<bar> \<longrightarrow>
            extract_temp_humidity (PyList (pre @ PyDict kvs # post)) = Inl OverflowError)
       \<and> extract_temp_humidity
            (PyList [PyDict [(''code'', PyStr ''temp_current''), (''value'', PyInt 235)]])
           = Inr (PyFloat (Fin 23.5), PyNone)
       \<and> extract_temp_humidity
            (PyList [PyDict [(''code'', PyStr ''temp_current''), (''value'', PyInt 23)]])
           = Inr (PyInt 23, PyNone)
       \<and> extract_temp_humidity
            (PyList [PyDict [(''code'', PyStr ''temp_current''), (''value'', PyInt (- 60))]])
           = Inr (PyFloat (Fin (- 6)), PyNone)"
proof -
  let ?T = "case v of
                  PyInt n \<Rightarrow>
                    if 50 < \<bar>n\<bar> then PyFloat (Fin (fl (fl (of_int n) / 10))) else PyInt n
                | PyFloat x \<Rightarrow>
                    (case x of
                       Fin r \<Rightarrow> if 50 < \<bar>r\<bar> then PyFloat (Fin (fl (r / 10))) else v
                     | _ \<Rightarrow> v)
                | _ \<Rightarrow> v"
  have general: "\<exists>h. extract_temp_humidity (PyList (pre @ PyDict kvs # post)) = Inr (?T, h)"
    if range: "\<forall>n. v = PyInt n \<longrightarrow> \<bar>n\<bar> < 2 ^ 1024 - 2 ^ 970"
  proof -
    have T: "scale_temp v = Inr ?T"
      using range by (rule scale_temp_value)
    have "extract_point (PyDict kvs) th = Inr (?T, snd th)"
      using c code val by (simp add: extract_point_dict T)
    moreover obtain h where "extract_loop post (?T, snd th) = Inr (?T, h)"
      using extract_loop_no_temp[OF post post_ok] by blast
    ultimately have "extract_loop (pre @ PyDict kvs # post) (PyNone, PyNone) = Inr (?T, h)"
      using extract_loop_append[OF pre] by simp
    then show ?thesis by auto
  qed
  have exact: "\<exists>h. extract_temp_humidity (PyList (pre @ PyDict kvs # post)) =
               Inr (PyFloat (Fin (fl (of_int n / 10))), h)"
    if n: "v = PyInt n \<and> 50 < \<bar>n\<bar> \<and> \<bar>n\<bar> \<le> 2 ^ 53" for n
  proof -
    have "(2::int) ^ 53 < 2 ^ 1024 - 2 ^ 970" by simp
    with n have "\<forall>m. v = PyInt m \<longrightarrow> \<bar>m\<bar> < 2 ^ 1024 - 2 ^ 970" by auto
    from general[OF this] n
    have "\<exists>h. extract_temp_humidity (PyList (pre @ PyDict kvs # post)) =
            Inr (PyFloat (Fin (fl (fl (of_int n) / 10))), h)"
      by simp
    moreover from n have "fl (of_int n) = of_int n" by (intro fl_int_exact) simp
    ultimately show ?thesis by simp
  qed
  have overflow: "extract_temp_humidity (PyList (pre @ PyDict kvs # post)) = Inl OverflowError"
    if n: "v = PyInt n \<and> 2 ^ 1024 - 2 ^ 970 \<le> \<bar>n\<bar>" for n
  proof -
    from n have big: "2 ^ 1024 - 2 ^ 970 \<le> \<bar>n\<bar>" by simp
    have "(50::int) < 2 ^ 1024 - 2 ^ 970" by simp
    with big have "50 < \<bar>n\<bar>" by linarith
    moreover have "div10 (PyInt n) = Inl OverflowError"
      using big by (rule div10_int_overflow)
    ultimately have "scale_temp v = Inl OverflowError"
      using n by (simp add: scale_temp_def)
    then have "extract_point (PyDict kvs) th = Inl OverflowError"
      using c code val by (simp add: extract_point_dict)
    then have "extract_loop (pre @ PyDict kvs # post) (PyNone, PyNone) = Inl OverflowError"
      using extract_loop_append[OF pre] by simp
    then show ?thesis by simp
  qed
  have examples:
    "extract_temp_humidity
       (PyList [PyDict [(''code'', PyStr ''temp_current''), (''value'', PyInt 235)]])
      = Inr (PyFloat (Fin 23.5), PyNone)"
    "extract_temp_humidity
       (PyList [PyDict [(''code'', PyStr ''temp_current''), (''value'', PyInt 23)]])
      = Inr (PyInt 23, PyNone)"
    "extract_temp_humidity
       (PyList [PyDict [(''code'', PyStr ''temp_current''), (''value'', PyInt (- 60))]])
      = Inr (PyFloat (Fin (- 6)), PyNone)"
    by (simp_all add: extract_eval)
  from general exact overflow examples show ?thesis by blast
qed

theorem temperature_scaling_witness:
  "''temperature'' \<in> set temperature_codes
   \<and> map_of [(''code'', PyStr ''temperature''), (''value'', PyFloat (Fin (- 50.5)))] ''code''
       = Some (PyStr ''temperature'')
   \<and> map_of [(''code'', PyStr ''temperature''), (''value'', PyFloat (Fin (- 50.5)))] ''value''
       = Some (PyFloat (Fin (- 50.5)))
   \<and> extract_loop [PyDict [(''code'', PyStr ''humidity''), (''value'', PyInt 455)]]
        (PyNone, PyNone) = Inr (PyNone, PyFloat (Fin 45.5))
   \<and> \<not> has_code (PyDict [(''code'', PyStr ''battery''), (''value'', PyInt 99)]) temperature_codes
   \<and> extract_loop [PyDict [(''code'', PyStr ''battery''), (''value'', PyInt 99)]]
        (PyNone, PyNone) = Inr (PyNone, PyNone)
   \<and> extract_temp_humidity (PyList
        [PyDict [(''code'', PyStr ''humidity''), (''value'', PyInt 455)],
         PyDict [(''code'', PyStr ''temperature''), (''value'', PyFloat (Fin (- 50.5)))],
         PyDict [(''code'', PyStr ''battery''), (''value'', PyInt 99)]])
       = Inr (PyFloat (Fin (- 5685794529555251 / 2 ^ 50)), PyFloat (Fin 45.5))
   \<and> map_of [(''code'', PyStr ''temperature''), (''value'', PyInt 51)] ''value''
       = Some (PyInt 51)
   \<and> (50::int) < \<bar>51\<bar> \<and> \<bar>51::int\<bar> \<le> 2 ^ 53
   \<and> extract_temp_humidity (PyList
        [PyDict [(''code'', PyStr ''humidity''), (''value'', PyInt 455)],
         PyDict [(''code'', PyStr ''temperature''), (''value'', PyInt 51)],
         PyDict [(''code'', PyStr ''battery''), (''value'', PyInt 99)]])
       = Inr (PyFloat (Fin (5742089524897382 / 2 ^ 50)), PyFloat (Fin 45.5))
   \<and> map_of [(''code'', PyStr ''temperature''), (''value'', PyInt (- (2 ^ 1024)))] ''value''
       = Some (PyInt (- (2 ^ 1024)))
   \<and> (2::int) ^ 1024 - 2 ^ 970 \<le> \<bar>- (2 ^ 1024)\<bar>
   \<and> extract_temp_humidity (PyList
        [PyDict [(''code'', PyStr ''humidity''), (''value'', PyInt 455)],
         PyDict [(''code'', PyStr ''temperature''), (''value'', PyInt (- (2 ^ 1024)))],
         PyDict [(''code'', PyStr ''battery''), (''value'', PyInt 99)]])
       = Inl OverflowError"
proof -
  let ?pre = "[PyDict [(''code'', PyStr ''humidity''), (''value'', PyInt 455)]]"
  let ?post = "[PyDict [(''code'', PyStr ''battery''), (''value'', PyInt 99)]]"
  have c: "''temperature'' \<in> set temperature_codes"
    by (simp add: temperature_codes_def)
  have pre: "extract_loop ?pre (PyNone, PyNone) = Inr (PyNone, PyFloat (Fin 45.5))"
    by (simp add: extract_eval)
  have post: "\<forall>dp \<in> set ?post. \<not> has_code dp temperature_codes"
    by (simp add: has_code_def temperature_codes_def)
  have post_ok: "extract_loop ?post (PyNone, PyNone) = Inr (PyNone, PyNone)"
    by (simp add: extract_eval)
  have hum: "extract_temp_humidity (PyList (?pre @ PyDict [(''code'', PyStr ''temperature''),
        (''value'', v)] # ?post)) = Inr (t, h) \<Longrightarrow> h = PyFloat (Fin 45.5)" for v t h
    by (auto simp: extract_eval split: sum.splits)
  have m: "map_of [(''code'', PyStr ''temperature''), (''value'', v)] ''code''
       = Some (PyStr ''temperature'')"
    "map_of [(''code'', PyStr ''temperature''), (''value'', v)] ''value'' = Some v" for v
    by simp_all
  have range: "\<forall>n. PyFloat (Fin (- 50.5)) = PyInt n \<longrightarrow> \<bar>n\<bar> < 2 ^ 1024 - 2 ^ 970"
    by simp
  have r: "fl (- 50.5 / 10) = - 5685794529555251 / 2 ^ 50"
    by (simp add: fl_eval)
  have "\<exists>h. extract_temp_humidity (PyList (?pre
         @ PyDict [(''code'', PyStr ''temperature''), (''value'', PyFloat (Fin (- 50.5)))]
         # ?post))
       = Inr (PyFloat (Fin (fl (- 50.5 / 10))), h)"
    using temperature_scaling[OF c m(1)[of "PyFloat (Fin (- 50.5))"]
        m(2)[of "PyFloat (Fin (- 50.5))"] pre post post_ok, THEN conjunct1, THEN mp, OF range]
    by simp
  then have f1: "extract_temp_humidity (PyList (?pre
         @ PyDict [(''code'', PyStr ''temperature''), (''value'', PyFloat (Fin (- 50.5)))]
         # ?post))
       = Inr (PyFloat (Fin (- 5685794529555251 / 2 ^ 50)), PyFloat (Fin 45.5))"
    unfolding r using hum by blast
  have small: "PyInt 51 = PyInt 51 \<and> 50 < \<bar>51::int\<bar> \<and> \<bar>51::int\<bar> \<le> 2 ^ 53"
    by simp
  have r2: "fl (of_int 51 / 10) = 5742089524897382 / 2 ^ 50"
    by (simp add: fl_eval)
  have "\<exists>h. extract_temp_humidity (PyList (?pre
         @ PyDict [(''code'', PyStr ''temperature''), (''value'', PyInt 51)] # ?post))
       = Inr (PyFloat (Fin (fl (of_int 51 / 10))), h)"
    using temperature_scaling[OF c m(1)[of "PyInt 51"] m(2)[of "PyInt 51"] pre post post_ok,
        THEN conjunct2, THEN conjunct1, THEN spec, THEN mp, OF small]
    by simp
  then have f2: "extract_temp_humidity (PyList (?pre
         @ PyDict [(''code'', PyStr ''temperature''), (''value'', PyInt 51)] # ?post))
       = Inr (PyFloat (Fin (5742089524897382 / 2 ^ 50)), PyFloat (Fin 45.5))"
    unfolding r2 using hum by blast
  have big: "(2::int) ^ 1024 - 2 ^ 970 \<le> \<bar>- (2 ^ 1024)\<bar>"
    by simp
  then have big': "PyInt (- (2 ^ 1024)) = PyInt (- (2 ^ 1024))
      \<and> 2 ^ 1024 - 2 ^ 970 \<le> \<bar>- (2 ^ 1024) :: int\<bar>"
    by (intro conjI refl)
  have f3: "extract_temp_humidity (PyList (?pre
         @ PyDict [(''code'', PyStr ''temperature''), (''value'', PyInt (- (2 ^ 1024)))]
         # ?post)) = Inl OverflowError"
    using temperature_scaling[OF c m(1)[of "PyInt (- (2 ^ 1024))"]
        m(2)[of "PyInt (- (2 ^ 1024))"] pre post post_ok,
        THEN conjunct2, THEN conjunct2, THEN conjunct1, THEN spec, THEN mp, OF big']
    by simp
  have p: "\<not> has_code (PyDict [(''code'', PyStr ''battery''), (''value'', PyInt 99)])
      temperature_codes"
    using post by simp
  have s: "(50::int) < \<bar>51\<bar>" "\<bar>51::int\<bar> \<le> 2 ^ 53"
    by simp_all
  from f1 have f1': "extract_temp_humidity (PyList
        [PyDict [(''code'', PyStr ''humidity''), (''value'', PyInt 455)],
         PyDict [(''code'', PyStr ''temperature''), (''value'', PyFloat (Fin (- 50.5)))],
         PyDict [(''code'', PyStr ''battery''), (''value'', PyInt 99)]])
       = Inr (PyFloat (Fin (- 5685794529555251 / 2 ^ 50)), PyFloat (Fin 45.5))"
    by simp
  from f2 have f2': "extract_temp_humidity (PyList
        [PyDict [(''code'', PyStr ''humidity''), (''value'', PyInt 455)],
         PyDict [(''code'', PyStr ''temperature''), (''value'', PyInt 51)],
         PyDict [(''code'', PyStr ''battery''), (''value'', PyInt 99)]])
       = Inr (PyFloat (Fin (5742089524897382 / 2 ^ 50)), PyFloat (Fin 45.5))"
    by simp
  from f3 have f3': "extract_temp_humidity (PyList
        [PyDict [(''code'', PyStr ''humidity''), (''value'', PyInt 455)],
         PyDict [(''code'', PyStr ''temperature''), (''value'', PyInt (- (2 ^ 1024)))],
         PyDict [(''code'', PyStr ''battery''), (''value'', PyInt 99)]])
       = Inl OverflowError"
    by simp
  from c m[of "PyFloat (Fin (- 50.5))"] pre p post_ok f1' m(2)[of "PyInt 51"] s f2'
    m(2)[of "PyInt (- (2 ^ 1024))"] big f3'
  show ?thesis
    by (intro conjI)
qed

text \<open>
  Claim C3, as stated: every numeric humidity value \<open>v > 100\<close> yields \<open>v / 10\<close>. It does not
  for an integer beyond the range of a double: \<^verbatim>\<open>value / 10.0\<close> converts the integer to a
  float first, and on \<open>10\<^sup>3\<^sup>0\<^sup>9\<close> that raises \<^verbatim>\<open>OverflowError\<close>, so the extractor returns
  nothing.
\<close>

theorem humidity_overflow_counterexample:
  "extract_temp_humidity
     (PyList [PyDict [(''code'', PyStr ''humidity''), (''value'', PyInt (10 ^ 309))]])
   = Inl OverflowError"
proof -
  have "(2::int) ^ 1024 - 2 ^ 970 \<le> \<bar>10 ^ 309\<bar>" by simp
  then have "div10 (PyInt (10 ^ 309)) = Inl OverflowError"
    by (rule div10_int_overflow)
  then show ?thesis
    by (simp add: extract_point_dict temperature_codes_def humidity_codes_def
        scale_humidity_def)
qed

text \<open>
  Claim C3, amended. A point with a recognized humidity code and the value \<open>v\<close> decides the
  humidity of a status list when no later point has a humidity code and the other points
  raise nothing. A float \<open>v > 100\<close> gives the double nearest to \<open>v / 10\<close>. An integer
  \<open>v > 100\<close> gives what \<^verbatim>\<open>v / 10.0\<close> computes: the double nearest to a tenth of the double
  nearest to \<open>v\<close>, which is the double nearest to \<open>v / 10\<close> when \<open>v \<le> 2\<^sup>5\<^sup>3\<close>; but from
  \<open>v = 2\<^sup>1\<^sup>0\<^sup>2\<^sup>4 - 2\<^sup>9\<^sup>7\<^sup>0\<close> on, beyond the range of a double, the extractor raises
  \<^verbatim>\<open>OverflowError\<close>. Every other number, also a negative one below \<open>-100\<close>, however large, an
  infinity or \<^verbatim>\<open>nan\<close>, is returned as it came (the threshold is not on the absolute value),
  and a value that is not a number passes through unchanged. In particular 455 gives
  45.5, 45 gives 45 and -150 gives -150.
\<close>

theorem humidity_scaling:
  assumes c: "c \<in> set humidity_codes"
    and code: "map_of kvs ''code'' = Some (PyStr c)"
    and val: "map_of kvs ''value'' = Some v"
    and pre: "extract_loop pre (PyNone, PyNone) = Inr th"
    and post: "\<forall>dp \<in> set post. \<not> has_code dp humidity_codes"
    and post_ok: "extract_loop post (PyNone, PyNone) = Inr th_post"
  shows "((\<forall>n. v = PyInt n \<longrightarrow> n < 2 ^ 1024 - 2 ^ 970) \<longrightarrow>
          (\<exists>t. extract_temp_humidity (PyList (pre @ PyDict kvs # post)) =
             Inr (t, case v of
                    PyInt n \<Rightarrow>
                      if 100 < n then PyFloat (Fin (fl (fl (of_int n) / 10))) else PyInt n
                  | PyFloat x \<Rightarrow>
                      (case x of
                         Fin r \<Rightarrow> if 100 < r then PyFloat (Fin (fl (r / 10))) else v
                       | _ \<Rightarrow> v)
                  | _ \<Rightarrow> v)))
       \<and> (\<forall>n. v = PyInt n \<and> 100 < n \<and> n \<le> 2 ^ 53 \<longrightarrow>
            (\<exists>t. extract_temp_humidity (PyList (pre @ PyDict kvs # post)) =
               Inr (t, PyFloat (Fin (fl (of_int n / 10))))))
       \<and> (\<forall>n. v = PyInt n \<and> 2 ^ 1024 - 2 ^ 970 \<le> n \<longrightarrow>
            extract_temp_humidity (PyList (pre @ PyDict kvs # post)) = Inl OverflowError)
       \<and> extract_temp_humidity
            (PyList [PyDict [(''code'', PyStr ''humidity''), (''value'', PyInt 455)]])
           = Inr (PyNone, PyFloat (Fin 45.5))
       \<and> extract_temp_humidity
            (PyList [PyDict [(''code'', PyStr ''humidity''), (''value'', PyInt 45)]])
           = Inr (PyNone, PyInt 45)
       \<and> extract_temp_humidity
            (PyList [PyDict [(''code'', PyStr ''humidity''), (''value'', PyInt (- 150))]])
           = Inr (PyNone, PyInt (- 150))"
proof -
  let ?H = "case v of
                  PyInt n \<Rightarrow>
                    if 100 < n then PyFloat (Fin (fl (fl (of_int n) / 10))) else PyInt n
                | PyFloat x \<Rightarrow>
                    (case x of
                       Fin r \<Rightarrow> if 100 < r then PyFloat (Fin (fl (r / 10))) else v
                     | _ \<Rightarrow> v)
                | _ \<Rightarrow> v"
  have not_temp: "\<not> code_in (PyStr c) temperature_codes"
    using humidity_code_not_temperature[OF c] by simp
  have general: "\<exists>t. extract_temp_humidity (PyList (pre @ PyDict kvs # post)) = Inr (t, ?H)"
    if range: "\<forall>n. v = PyInt n \<longrightarrow> n < 2 ^ 1024 - 2 ^ 970"
  proof -
    have H: "scale_humidity v = Inr ?H"
      using range by (rule scale_humidity_value)
    have "extract_point (PyDict kvs) th = Inr (fst th, ?H)"
      using c code val not_temp by (simp add: extract_point_dict H)
    moreover obtain t where "extract_loop post (fst th, ?H) = Inr (t, ?H)"
      using extract_loop_no_hum[OF post post_ok] by blast
    ultimately have "extract_loop (pre @ PyDict kvs # post) (PyNone, PyNone) = Inr (t, ?H)"
      using extract_loop_append[OF pre] by simp
    then show ?thesis by auto
  qed
  have exact: "\<exists>t. extract_temp_humidity (PyList (pre @ PyDict kvs # post)) =
               Inr (t, PyFloat (Fin (fl (of_int n / 10))))"
    if n: "v = PyInt n \<and> 100 < n \<and> n \<le> 2 ^ 53" for n
  proof -
    have "(2::int) ^ 53 < 2 ^ 1024 - 2 ^ 970" by simp
    with n have "\<forall>m. v = PyInt m \<longrightarrow> m < 2 ^ 1024 - 2 ^ 970" by auto
    from general[OF this] n
    have "\<exists>t. extract_temp_humidity (PyList (pre @ PyDict kvs # post)) =
            Inr (t, PyFloat (Fin (fl (fl (of_int n) / 10))))"
      by simp
    moreover from n have "fl (of_int n) = of_int n" by (intro fl_int_exact) simp
    ultimately show ?thesis by simp
  qed
  have overflow: "extract_temp_humidity (PyList (pre @ PyDict kvs # post)) = Inl OverflowError"
    if n: "v = PyInt n \<and> 2 ^ 1024 - 2 ^ 970 \<le> n" for n
  proof -
    have "(100::int) < 2 ^ 1024 - 2 ^ 970" by simp
    with n have "100 < n" by linarith
    then have "0 \<le> n" by simp
    with n have big: "2 ^ 1024 - 2 ^ 970 \<le> \<bar>n\<bar>" by simp
    have "div10 (PyInt n) = Inl OverflowError"
      using big by (rule div10_int_overflow)
    with \<open>100 < n\<close> have "scale_humidity v = Inl OverflowError"
      using n by (simp add: scale_humidity_def)
    then have "extract_point (PyDict kvs) th = Inl OverflowError"
      using c code val not_temp by (simp add: extract_point_dict)
    then have "extract_loop (pre @ PyDict kvs # post) (PyNone, PyNone) = Inl OverflowError"
      using extract_loop_append[OF pre] by simp
    then show ?thesis by simp
  qed
  have examples:
    "extract_temp_humidity
       (PyList [PyDict [(''code'', PyStr ''humidity''), (''value'', PyInt 455)]])
      = Inr (PyNone, PyFloat (Fin 45.5))"
    "extract_temp_humidity
       (PyList [PyDict [(''code'', PyStr ''humidity''), (''value'', PyInt 45)]])
      = Inr (PyNone, PyInt 45)"
    "extract_temp_humidity
       (PyList [PyDict [(''code'', PyStr ''humidity''), (''value'', PyInt (- 150))]])
      = Inr (PyNone, PyInt (- 150))"
    by (simp_all add: extract_eval)
  from general exact overflow examples show ?thesis by blast
qed

theorem humidity_scaling_witness:
  "''va_humidity'' \<in> set humidity_codes
   \<and> map_of [(''code'', PyStr ''va_humidity''), (''value'', PyFloat (Fin 100.5))] ''code''
       = Some (PyStr ''va_humidity'')
   \<and> map_of [(''code'', PyStr ''va_humidity''), (''value'', PyFloat (Fin 100.5))] ''value''
       = Some (PyFloat (Fin 100.5))
   \<and> extract_loop [PyDict [(''code'', PyStr ''humidity''), (''value'', PyInt 45)]]
        (PyNone, PyNone) = Inr (PyNone, PyInt 45)
   \<and> \<not> has_code (PyDict [(''code'', PyStr ''temp_current''), (''value'', PyInt 235)])
         humidity_codes
   \<and> extract_loop [PyDict [(''code'', PyStr ''temp_current''), (''value'', PyInt 235)]]
        (PyNone, PyNone) = Inr (PyFloat (Fin 23.5), PyNone)
   \<and> extract_temp_humidity (PyList
        [PyDict [(''code'', PyStr ''humidity''), (''value'', PyInt 45)],
         PyDict [(''code'', PyStr ''va_humidity''), (''value'', PyFloat (Fin 100.5))],
         PyDict [(''code'', PyStr ''temp_current''), (''value'', PyInt 235)]])
       = Inr (PyFloat (Fin 23.5), PyFloat (Fin (5657647031884186 / 2 ^ 49)))
   \<and> map_of [(''code'', PyStr ''va_humidity''), (''value'', PyInt 101)] ''value''
       = Some (PyInt 101)
   \<and> (100::int) < 101 \<and> (101::int) \<le> 2 ^ 53
   \<and> extract_temp_humidity (PyList
        [PyDict [(''code'', PyStr ''humidity''), (''value'', PyInt 45)],
         PyDict [(''code'', PyStr ''va_humidity''), (''value'', PyInt 101)],
         PyDict [(''code'', PyStr ''temp_current''), (''value'', PyInt 235)]])
       = Inr (PyFloat (Fin 23.5), PyFloat (Fin (5685794529555251 / 2 ^ 49)))
   \<and> map_of [(''code'', PyStr ''va_humidity''), (''value'', PyInt (2 ^ 1024))] ''value''
       = Some (PyInt (2 ^ 1024))
   \<and> (2::int) ^ 1024 - 2 ^ 970 \<le> 2 ^ 1024
   \<and> extract_temp_humidity (PyList
        [PyDict [(''code'', PyStr ''humidity''), (''value'', PyInt 45)],
         PyDict [(''code'', PyStr ''va_humidity''), (''value'', PyInt (2 ^ 1024))],
         PyDict [(''code'', PyStr ''temp_current''), (''value'', PyInt 235)]])
       = Inl OverflowError
   \<and> map_of [(''code'', PyStr ''va_humidity''), (''value'', PyInt (- (2 ^ 1024)))] ''value''
       = Some (PyInt (- (2 ^ 1024)))
   \<and> (- (2 ^ 1024) :: int) < 2 ^ 1024 - 2 ^ 970
   \<and> extract_temp_humidity (PyList
        [PyDict [(''code'', PyStr ''humidity''), (''value'', PyInt 45)],
         PyDict [(''code'', PyStr ''va_humidity''), (''value'', PyInt (- (2 ^ 1024)))],
         PyDict [(''code'', PyStr ''temp_current''), (''value'', PyInt 235)]])
       = Inr (PyFloat (Fin 23.5), PyInt (- (2 ^ 1024)))"
proof -
  let ?pre = "[PyDict [(''code'', PyStr ''humidity''), (''value'', PyInt 45)]]"
  let ?post = "[PyDict [(''code'', PyStr ''temp_current''), (''value'', PyInt 235)]]"
  have c: "''va_humidity'' \<in> set humidity_codes"
    by (simp add: humidity_codes_def)
  have pre: "extract_loop ?pre (PyNone, PyNone) = Inr (PyNone, PyInt 45)"
    by (simp add: extract_eval)
  have post: "\<forall>dp \<in> set ?post. \<not> has_code dp humidity_codes"
    by (simp add: has_code_def humidity_codes_def)
  have post_ok: "extract_loop ?post (PyNone, PyNone) = Inr (PyFloat (Fin 23.5), PyNone)"
    by (simp add: extract_eval)
  have temp: "extract_temp_humidity (PyList (?pre @ PyDict [(''code'', PyStr ''va_humidity''),
        (''value'', v)] # ?post)) = Inr (t, h) \<Longrightarrow> t = PyFloat (Fin 23.5)" for v t h
    by (auto simp: extract_eval split: sum.splits)
  have m: "map_of [(''code'', PyStr ''va_humidity''), (''value'', v)] ''code''
       = Some (PyStr ''va_humidity'')"
    "map_of [(''code'', PyStr ''va_humidity''), (''value'', v)] ''value'' = Some v" for v
    by simp_all
  have range: "\<forall>n. PyFloat (Fin 100.5) = PyInt n \<longrightarrow> n < 2 ^ 1024 - 2 ^ 970"
    by simp
  have r: "fl (100.5 / 10) = 5657647031884186 / 2 ^ 49"
    by (simp add: fl_eval)
  have "\<exists>t. extract_temp_humidity (PyList (?pre
         @ PyDict [(''code'', PyStr ''va_humidity''), (''value'', PyFloat (Fin 100.5))]
         # ?post))
       = Inr (t, PyFloat (Fin (fl (100.5 / 10))))"
    using humidity_scaling[OF c m(1)[of "PyFloat (Fin 100.5)"]
        m(2)[of "PyFloat (Fin 100.5)"] pre post post_ok, THEN conjunct1, THEN mp, OF range]
    by simp
  then have f1: "extract_temp_humidity (PyList (?pre
         @ PyDict [(''code'', PyStr ''va_humidity''), (''value'', PyFloat (Fin 100.5))]
         # ?post))
       = Inr (PyFloat (Fin 23.5), PyFloat (Fin (5657647031884186 / 2 ^ 49)))"
    unfolding r using temp by blast
  have small: "PyInt 101 = PyInt 101 \<and> (100::int) < 101 \<and> (101::int) \<le> 2 ^ 53"
    by simp
  have r2: "fl (of_int 101 / 10) = 5685794529555251 / 2 ^ 49"
    by (simp add: fl_eval)
  have "\<exists>t. extract_temp_humidity (PyList (?pre
         @ PyDict [(''code'', PyStr ''va_humidity''), (''value'', PyInt 101)] # ?post))
       = Inr (t, PyFloat (Fin (fl (of_int 101 / 10))))"
    using humidity_scaling[OF c m(1)[of "PyInt 101"] m(2)[of "PyInt 101"] pre post post_ok,
        THEN conjunct2, THEN conjunct1, THEN spec, THEN mp, OF small]
    by simp
  then have f2: "extract_temp_humidity (PyList (?pre
         @ PyDict [(''code'', PyStr ''va_humidity''), (''value'', PyInt 101)] # ?post))
       = Inr (PyFloat (Fin 23.5), PyFloat (Fin (5685794529555251 / 2 ^ 49)))"
    unfolding r2 using temp by blast
  have big: "(2::int) ^ 1024 - 2 ^ 970 \<le> 2 ^ 1024"
    by simp
  then have big': "PyInt (2 ^ 1024) = PyInt (2 ^ 1024) \<and> 2 ^ 1024 - 2 ^ 970 \<le> (2 ^ 1024 :: int)"
    by (intro conjI refl)
  have f3: "extract_temp_humidity (PyList (?pre
         @ PyDict [(''code'', PyStr ''va_humidity''), (''value'', PyInt (2 ^ 1024))]
         # ?post)) = Inl OverflowError"
    using humidity_scaling[OF c m(1)[of "PyInt (2 ^ 1024)"]
        m(2)[of "PyInt (2 ^ 1024)"] pre post post_ok,
        THEN conjunct2, THEN conjunct2, THEN conjunct1, THEN spec, THEN mp, OF big']
    by simp
  have neg: "(- (2 ^ 1024) :: int) < 2 ^ 1024 - 2 ^ 970"
    by simp
  then have range4: "\<forall>n. PyInt (- (2 ^ 1024)) = PyInt n \<longrightarrow> n < 2 ^ 1024 - 2 ^ 970"
    by simp
  have "\<exists>t. extract_temp_humidity (PyList (?pre
         @ PyDict [(''code'', PyStr ''va_humidity''), (''value'', PyInt (- (2 ^ 1024)))]
         # ?post))
       = Inr (t, PyInt (- (2 ^ 1024)))"
    using humidity_scaling[OF c m(1)[of "PyInt (- (2 ^ 1024))"]
        m(2)[of "PyInt (- (2 ^ 1024))"] pre post post_ok, THEN conjunct1, THEN mp, OF range4]
    by simp
  then have f4: "extract_temp_humidity (PyList (?pre
         @ PyDict [(''code'', PyStr ''va_humidity''), (''value'', PyInt (- (2 ^ 1024)))]
         # ?post))
       = Inr (PyFloat (Fin 23.5), PyInt (- (2 ^ 1024)))"
    using temp by blast
  have p: "\<not> has_code (PyDict [(''code'', PyStr ''temp_current''), (''value'', PyInt 235)])
      humidity_codes"
    using post by simp
  have s: "(100::int) < 101" "(101::int) \<le> 2 ^ 53"
    by simp_all
  from f1 have f1': "extract_temp_humidity (PyList
        [PyDict [(''code'', PyStr ''humidity''), (''value'', PyInt 45)],
         PyDict [(''code'', PyStr ''va_humidity''), (''value'', PyFloat (Fin 100.5))],
         PyDict [(''code'', PyStr ''temp_current''), (''value'', PyInt 235)]])
       = Inr (PyFloat (Fin 23.5), PyFloat (Fin (5657647031884186 / 2 ^ 49)))"
    by simp
  from f2 have f2': "extract_temp_humidity (PyList
        [PyDict [(''code'', PyStr ''humidity''), (''value'', PyInt 45)],
         PyDict [(''code'', PyStr ''va_humidity''), (''value'', PyInt 101)],
         PyDict [(''code'', PyStr ''temp_current''), (''value'', PyInt 235)]])
       = Inr (PyFloat (Fin 23.5), PyFloat (Fin (5685794529555251 / 2 ^ 49)))"
    by simp
  from f3 have f3': "extract_temp_humidity (PyList
        [PyDict [(''code'', PyStr ''humidity''), (''value'', PyInt 45)],
         PyDict [(''code'', PyStr ''va_humidity''), (''value'', PyInt (2 ^ 1024))],
         PyDict [(''code'', PyStr ''temp_current''), (''value'', PyInt 235)]])
       = Inl OverflowError"
    by simp
  from f4 have f4': "extract_temp_humidity (PyList
        [PyDict [(''code'', PyStr ''humidity''), (''value'', PyInt 45)],
         PyDict [(''code'', PyStr ''va_humidity''), (''value'', PyInt (- (2 ^ 1024)))],
         PyDict [(''code'', PyStr ''temp_current''), (''value'', PyInt 235)]])
       = Inr (PyFloat (Fin 23.5), PyInt (- (2 ^ 1024)))"
    by simp
  from c m[of "PyFloat (Fin 100.5)"] pre p post_ok f1' m(2)[of "PyInt 101"] s f2'
    m(2)[of "PyInt (2 ^ 1024)"] big f3' m(2)[of "PyInt (- (2 ^ 1024))"] neg f4'
  show ?thesis
    by (intro conjI)
qed

text \<open>
  Claim C10, as stated: a point missing the \<^verbatim>\<open>value\<close> key leaves the corresponding output
  unchanged. It does not: with a recognized code, \<^verbatim>\<open>dp.get("value")\<close> is \<^verbatim>\<open>None\<close> and the
  output is overwritten with it, so the temperature 23 an earlier point gave is lost.
\<close>

theorem missing_value_counterexample:
  "extract_temp_humidity (PyList
      [PyDict [(''code'', PyStr ''temp_current''), (''value'', PyInt 23)]])
     = Inr (PyInt 23, PyNone)
   \<and> extract_temp_humidity (PyList
      [PyDict [(''code'', PyStr ''temp_current''), (''value'', PyInt 23)],
       PyDict [(''code'', PyStr ''temperature'')]])
     = Inr (PyNone, PyNone)
   \<and> extract_point (PyDict [(''code'', PyStr ''temperature'')]) (PyInt 23, PyNone)
     \<noteq> Inr (PyInt 23, PyNone)"
  by (simp add: extract_point_dict temperature_codes_def scale_temp_def)

lemma extract_loop_malformed:
  "\<forall>dp \<in> set dps. \<exists>kvs. dp = PyDict kvs
      \<and> (map_of kvs ''code'' = None \<or> map_of kvs ''value'' = None)
   \<Longrightarrow> extract_loop dps (PyNone, PyNone) = Inr (PyNone, PyNone)"
proof (induction dps)
  case Nil
  then show ?case by simp
next
  case (Cons dp dps)
  then obtain kvs where "dp = PyDict kvs"
    and "map_of kvs ''code'' = None \<or> map_of kvs ''value'' = None"
    by auto
  then have "extract_point dp (PyNone, PyNone) = Inr (PyNone, PyNone)"
    by (auto simp: extract_point_dict scale_temp_def scale_humidity_def Let_def)
  with Cons show ?case by simp
qed

text \<open>
  Claim C10, amended. In a list of dictionaries, a point without the \<^verbatim>\<open>code\<close> key or without
  the \<^verbatim>\<open>value\<close> key raises no exception; a list of such points yields \<open>(None, None)\<close>. A
  point without the \<^verbatim>\<open>code\<close> key leaves both outputs as they were. A point without the
  \<^verbatim>\<open>value\<close> key is not ignored: under a temperature code it sets the temperature to
  \<^verbatim>\<open>None\<close>, under a humidity code the humidity, and the other output stays; under any other
  code both outputs stay.
\<close>

theorem extract_malformed_points:
  "((\<forall>dp \<in> set dps. \<exists>kvs. dp = PyDict kvs
        \<and> (map_of kvs ''code'' = None \<or> map_of kvs ''value'' = None)) \<longrightarrow>
      extract_temp_humidity (PyList dps) = Inr (PyNone, PyNone))
   \<and> (map_of kvs ''code'' = None \<longrightarrow> extract_point (PyDict kvs) (t0, h0) = Inr (t0, h0))
   \<and> (map_of kvs ''value'' = None \<longrightarrow>
        extract_point (PyDict kvs) (t0, h0) =
          Inr (if has_code (PyDict kvs) temperature_codes then (PyNone, h0)
               else if has_code (PyDict kvs) humidity_codes then (t0, PyNone)
               else (t0, h0)))"
proof -
  have total: "(\<forall>dp \<in> set dps. \<exists>kvs. dp = PyDict kvs
        \<and> (map_of kvs ''code'' = None \<or> map_of kvs ''value'' = None)) \<longrightarrow>
      extract_temp_humidity (PyList dps) = Inr (PyNone, PyNone)"
    using extract_loop_malformed[of dps] by simp
  have no_code: "map_of kvs ''code'' = None \<longrightarrow>
      extract_point (PyDict kvs) (t0, h0) = Inr (t0, h0)"
    by (simp add: extract_point_dict)
  have no_value: "map_of kvs ''value'' = None \<longrightarrow>
        extract_point (PyDict kvs) (t0, h0) =
          Inr (if has_code (PyDict kvs) temperature_codes then (PyNone, h0)
               else if has_code (PyDict kvs) humidity_codes then (t0, PyNone)
               else (t0, h0))"
    by (simp add: extract_point_dict has_code_def scale_temp_def scale_humidity_def Let_def)
  from total no_code no_value show ?thesis by blast
qed

theorem extract_malformed_points_witness:
  "map_of [(''value'', PyInt 7)] ''code'' = None
   \<and> map_of [(''code'', PyStr ''humidity'')] ''value'' = None
   \<and> extract_temp_humidity
         (PyList [PyDict [(''value'', PyInt 7)], PyDict [(''code'', PyStr ''humidity'')]])
        = Inr (PyNone, PyNone)
   \<and> extract_point (PyDict [(''value'', PyInt 7)]) (PyInt 23, PyInt 45) = Inr (PyInt 23, PyInt 45)
   \<and> extract_point (PyDict [(''code'', PyStr ''humidity'')]) (PyInt 23, PyInt 45)
       = Inr (PyInt 23, PyNone)"
  using extract_malformed_points[of
      "[PyDict [(''value'', PyInt 7)], PyDict [(''code'', PyStr ''humidity'')]]"
      "[(''value'', PyInt 7)]" "PyInt 23" "PyInt 45"]
    extract_malformed_points[of "[]" "[(''code'', PyStr ''humidity'')]" "PyInt 23" "PyInt 45"]
  by (simp add: has_code_def temperature_codes_def humidity_codes_def)

section \<open>Properties of the signer\<close>

lemma length_hexdigest: "length (hexdigest bs) = 2 * length bs"
  by (induction bs) (simp_all add: hexdigest_def hex_byte_def)

lemma upper_hex_digit:
  assumes "n < 16"
  shows "upper_char (hex_digit n) \<in> set ''0123456789ABCDEF''"
proof -
  have "length ''0123456789abcdef'' = 16" by simp
  with assms have "n < length ''0123456789abcdef''" by simp
  then have "hex_digit n \<in> set ''0123456789abcdef''"
    unfolding hex_digit_def by (rule nth_mem)
  then show ?thesis
    by (auto simp: upper_char_def)
qed

lemma upper_hexdigest: "set (py_upper (hexdigest bs)) \<subseteq> set ''0123456789ABCDEF''"
proof -
  define A where "A = set ''0123456789ABCDEF''"
  have hi: "upper_char (hex_digit (of_char c div 16)) \<in> A" for c :: char
  proof -
    have "(of_char c :: nat) < 256" by simp
    then have "(of_char c :: nat) < 16 * 16" by simp
    then have "(of_char c :: nat) div 16 < 16" by (rule less_mult_imp_div_less)
    then show ?thesis unfolding A_def by (rule upper_hex_digit)
  qed
  have lo: "upper_char (hex_digit (of_char c mod 16)) \<in> A" for c :: char
    unfolding A_def by (rule upper_hex_digit) (rule mod_less_divisor, simp)
  have "set (py_upper (hexdigest bs)) \<subseteq> A"
    by (induction bs) (simp_all add: py_upper_def hexdigest_def hex_byte_def hi lo)
  then show ?thesis by (simp only: A_def)
qed

text \<open>
  Claim C1, as stated: the canonical string has, between the digest of the body and the
  path, a newline, a newline for the empty header block and one more newline. The source
  appends two newlines there, not three: the empty header block contributes no character.
  Shown at the token request, whose body is empty.
\<close>

theorem canonical_string_counterexample:
  "str_to_sign ''GET''
      ''e3b0c44298fc1c149afbf4c8996fb92427ae41e4649b934ca495991b7852b855''
      ''/v1.0/token?grant_type=1''
   \<noteq> spec_canonical_string ''GET''
      ''e3b0c44298fc1c149afbf4c8996fb92427ae41e4649b934ca495991b7852b855''
      ''/v1.0/token?grant_type=1''"
  by (simp add: str_to_sign_def spec_canonical_string_def)

text \<open>
  Claim C1, amended. For every method, path, clock reading, credentials, token (absent or
  a string) and body (absent, a string, or a dictionary serialized by \<^verbatim>\<open>json.dumps\<close>), the
  canonical string is method, newline, lowercase hexadecimal SHA-256 of the body bytes
  (of the empty byte string when there is no body), newline, newline, path; the signature
  is the uppercase hexadecimal HMAC-SHA-256, keyed by the access secret, of access id,
  token or empty string, decimal millisecond timestamp and canonical string, in this
  order. With a digest of 32 bytes it has 64 characters, all of them in 0-9 and A-F. The
  result is a function of these inputs and the clock reading alone.
\<close>

theorem sign_request_signature:
  assumes tok: "token self = PyNone \<and> tok = [] \<or> token self = PyStr tok"
    and body: "body = PyNone \<and> content = [] \<or> body = PyStr content
               \<or> (\<exists>kvs. body = PyDict kvs \<and> kvs \<noteq> [] \<and> content = json_dumps L body)"
    and digest: "\<forall>key msg. length (hmac_sha256 L key msg) = 32"
    and sig: "signature = py_upper (hexdigest (hmac_sha256 L (access_key self)
                (access_id self @ tok @ str_int now_ms
                 @ method @ ''\<newline>'' @ hexdigest (sha256 L content) @ ''\<newline>''
                 @ ''\<newline>'' @ path)))"
  shows "sign_request L now_ms self method path body =
           Inr [(''client_id'', access_id self), (''sign'', signature), (''t'', str_int now_ms),
                (''sign_method'', ''HMAC-SHA256''), (''access_token'', tok)]
         \<and> length signature = 64
         \<and> set signature \<subseteq> set ''0123456789ABCDEF''"
proof -
  have t: "token_or_empty (token self) = PyStr tok"
    using tok by (auto simp: token_or_empty_def)
  have b: "body_content L body = Inr content"
    using body by (auto simp: body_content_def)
  have "sign_request L now_ms self method path body =
           Inr [(''client_id'', access_id self), (''sign'', signature), (''t'', str_int now_ms),
                (''sign_method'', ''HMAC-SHA256''), (''access_token'', tok)]"
    by (simp add: sign_request_def t b sig str_to_sign_def Let_def)
  moreover have "length signature = 64"
    by (simp add: sig py_upper_def length_hexdigest digest)
  moreover have "set signature \<subseteq> set ''0123456789ABCDEF''"
    unfolding sig by (rule upper_hexdigest)
  ultimately show ?thesis by blast
qed

theorem sign_request_signature_witness:
  "(\<forall>key msg. length (hmac_sha256 stub_lib key msg) = 32)
   \<and> sign_request stub_lib 1700000000123
        \<lparr>endpoint = ''https://openapi.tuyaeu.com'', access_id = ''id'', access_key = ''key'',
         token = PyNone\<rparr>
        ''GET'' ''/v1.0/token?grant_type=1'' PyNone
     = Inr [(''client_id'', ''id''),
            (''sign'', ''5A5A5A5A5A5A5A5A5A5A5A5A5A5A5A5AC3C3C3C3C3C3C3C3C3C3C3C3C3C3C3C3''),
            (''t'', ''1700000000123''),
            (''sign_method'', ''HMAC-SHA256''),
            (''access_token'', '''')]"
proof -
  have d: "\<forall>key msg. length (hmac_sha256 stub_lib key msg) = 32"
    by (simp add: stub_lib_def)
  have s: "py_upper (hexdigest (hmac_sha256 stub_lib k m))
      = ''5A5A5A5A5A5A5A5A5A5A5A5A5A5A5A5AC3C3C3C3C3C3C3C3C3C3C3C3C3C3C3C3''" for k m
    by (simp add: stub_lib_def py_upper_def hexdigest_def hex_byte_def hex_digit_def
        upper_char_def)
  have n: "str_int 1700000000123 = ''1700000000123''"
    by (simp add: str_int_def str_nat.simps digit_char_def)
  show ?thesis
    using d sign_request_signature[of
        "\<lparr>endpoint = ''https://openapi.tuyaeu.com'', access_id = ''id'', access_key = ''key'',
         token = PyNone\<rparr>" "[]" PyNone "[]" stub_lib _ 1700000000123 "''GET''"
        "''/v1.0/token?grant_type=1''", OF _ _ d refl]
    by (simp add: s n)
qed

section \<open>The example runs\<close>

text \<open>The collection phase of \<^verbatim>\<open>main\<close> evaluated on the two example environments: two
  readings in the first (the second device lacks a humidity), none in the second.\<close>

lemmas eval_defs = connect_def get_def fetch_device_def sign_request_def
  body_content_def token_or_empty_def str_to_sign_def example_env_def example_world_def
  token_response_def stub_lib_def DEVICE_IDS_def ENDPOINT_def var_present_def var_value_def
  Let_def py_print_def extract_point_dict temperature_codes_def humidity_codes_def
  scale_temp_def scale_humidity_def div10_examples example_readings_def
  example_api_def example_headers_def offline_env_def

lemmas str_defs = py_upper_def hexdigest_def hex_byte_def hex_digit_def upper_char_def
  str_int_def str_nat.simps digit_char_def

lemma example_collect:
  "fst (main_collect stub_lib example_env example_world) = Inr (Inr example_readings)"
  by (simp add: main_collect_def eval_defs)

lemma offline_collect:
  "fst (main_collect stub_lib offline_env example_world) = Inr (Inr [])"
  by (simp add: main_collect_def eval_defs)

lemma collected_world:
  "fst (main_collect L E w) = Inr (Inr rs) \<Longrightarrow>
   main_collect L E w = (Inr (Inr rs), snd (main_collect L E w))"
  by (cases "main_collect L E w") simp

section \<open>Properties of the API client\<close>

text \<open>
  Claim C4, as stated: on any failure \<^verbatim>\<open>connect\<close> returns failure. It does not when the
  response reports success but holds no token field: \<^verbatim>\<open>result["result"]["access_token"]\<close>
  raises \<^verbatim>\<open>KeyError\<close>, which nothing catches. Nor does it when the request itself fails: the
  call of \<^verbatim>\<open>requests.get\<close> is outside the \<^verbatim>\<open>try\<close> block, so its exception escapes.
\<close>

theorem connect_raises_counterexample:
  "reports_success (PyDict [(''success'', PyBool True)])
   \<and> token_field (PyDict [(''success'', PyBool True)]) = None
   \<and> fst (connect stub_lib tokenless_env example_api example_world) = Inl KeyError
   \<and> fst (connect stub_lib unreachable_env example_api example_world)
       = Inl (Raised ''connection timed out'')"
  by (simp add: reports_success_def token_field_def tokenless_env_def unreachable_env_def
      eval_defs str_defs)

text \<open>
  Claim C4, amended. \<^verbatim>\<open>connect\<close> returns success exactly when the token request is answered
  with a body that is JSON, reports success and contains a token field, and then the
  client holds that token. It returns failure exactly when the body is not JSON or is a
  JSON object that does not report success. Every other failure is an exception that
  escapes: \<^verbatim>\<open>KeyError\<close> or \<^verbatim>\<open>TypeError\<close> when the body reports success without a token field,
  \<^verbatim>\<open>AttributeError\<close> when the body is JSON but not an object, and the exception of the
  request when the request itself fails. Whenever \<^verbatim>\<open>connect\<close> does not return success the
  client is unchanged, so a token that was unset stays unset.
\<close>

theorem connect_outcome:
  assumes sign: "sign_request L (time_ms E (length (sent w))) self ''GET''
                   ''/v1.0/token?grant_type=1'' PyNone = Inr hdrs"
    and reply: "requests_get E (length (sent w)) (endpoint self @ ''/v1.0/token?grant_type=1'') hdrs
                 = reply"
    and run: "connect L E self w = (res, self', w')"
  shows "(res = Inr True \<longleftrightarrow>
            (\<exists>result tok. reply = Inr (Json result) \<and> reports_success result
                \<and> token_field result = Some tok))
       \<and> (\<forall>result tok. reply = Inr (Json result) \<and> reports_success result
                \<and> token_field result = Some tok \<longrightarrow> self' = self\<lparr>token := tok\<rparr>)
       \<and> (res = Inr False \<longleftrightarrow>
            (\<exists>msg. reply = Inr (NotJson msg))
            \<or> (\<exists>result. reply = Inr (Json result) \<and> is_dict result
                   \<and> \<not> reports_success result))
       \<and> (\<forall>result. reply = Inr (Json result) \<and> reports_success result
                \<and> token_field result = None \<longrightarrow> res = Inl KeyError \<or> res = Inl TypeError)
       \<and> (\<forall>result. reply = Inr (Json result) \<and> \<not> is_dict result \<longrightarrow> res = Inl AttributeError)
       \<and> (\<forall>msg. reply = Inl msg \<longrightarrow> res = Inl (Raised msg))
       \<and> (res \<noteq> Inr True \<longrightarrow> self' = self)"
proof (cases reply)
  case (Inl msg)
  with sign reply run show ?thesis
    by (auto simp: connect_def Let_def)
next
  case body: (Inr body)
  show ?thesis
  proof (cases body)
    case (NotJson msg)
    with body sign reply run show ?thesis
      by (auto simp: connect_def Let_def)
  next
    case (Json result)
    show ?thesis
    proof (cases result)
      case (PyDict kvs)
      have g: "py_getitem r k = Inl e \<Longrightarrow> e = KeyError \<or> e = TypeError" for r k e
        by (cases r) (auto split: option.splits)
      from PyDict Json body sign reply run show ?thesis
        by (auto simp: connect_def Let_def reports_success_def token_field_def
            split: sum.splits if_splits option.splits dest: g)
    qed (use Json body sign reply run in
          \<open>auto simp: connect_def Let_def reports_success_def\<close>)
  qed
qed

theorem connect_outcome_witness:
  "sign_request stub_lib (time_ms example_env (length (sent example_world))) example_api ''GET''
      ''/v1.0/token?grant_type=1'' PyNone = Inr example_headers
   \<and> requests_get example_env (length (sent example_world))
        (endpoint example_api @ ''/v1.0/token?grant_type=1'') example_headers
       = Inr (Json token_response)
   \<and> reports_success token_response
   \<and> token_field token_response = Some (PyStr ''tok'')
   \<and> fst (connect stub_lib example_env example_api example_world) = Inr True
   \<and> fst (snd (connect stub_lib example_env example_api example_world))
       = example_api\<lparr>token := PyStr ''tok''\<rparr>
   \<and> sign_request stub_lib (time_ms refused_env (length (sent example_world))) example_api ''GET''
      ''/v1.0/token?grant_type=1'' PyNone = Inr example_headers
   \<and> requests_get refused_env (length (sent example_world))
        (endpoint example_api @ ''/v1.0/token?grant_type=1'') example_headers
       = Inr (Json (PyDict [(''success'', PyBool False), (''msg'', PyStr ''sign invalid'')]))
   \<and> is_dict (PyDict [(''success'', PyBool False), (''msg'', PyStr ''sign invalid'')])
   \<and> \<not> reports_success (PyDict [(''success'', PyBool False), (''msg'', PyStr ''sign invalid'')])
   \<and> fst (connect stub_lib refused_env example_api example_world) = Inr False
   \<and> fst (snd (connect stub_lib refused_env example_api example_world)) = example_api"
proof -
  have sign: "sign_request stub_lib (time_ms example_env (length (sent example_world)))
      example_api ''GET'' ''/v1.0/token?grant_type=1'' PyNone = Inr example_headers"
    by (simp add: eval_defs str_defs)
  have resp: "requests_get example_env (length (sent example_world))
        (endpoint example_api @ ''/v1.0/token?grant_type=1'') example_headers
       = Inr (Json token_response)"
    by (simp add: example_env_def example_api_def)
  have ok: "reports_success token_response" "token_field token_response = Some (PyStr ''tok'')"
    by (simp_all add: reports_success_def token_field_def token_response_def)
  have run: "connect stub_lib example_env example_api example_world =
      (fst (connect stub_lib example_env example_api example_world),
       fst (snd (connect stub_lib example_env example_api example_world)),
       snd (snd (connect stub_lib example_env example_api example_world)))"
    by simp
  note th = connect_outcome[OF sign resp run]
  have "\<exists>result tok. Inr (Json token_response) = Inr (Json result) \<and> reports_success result
      \<and> token_field result = Some tok"
    using ok by (intro exI[of _ token_response] exI[of _ "PyStr ''tok''"]) simp
  then have r: "fst (connect stub_lib example_env example_api example_world) = Inr True"
    by (rule th[THEN conjunct1, THEN iffD2])
  have s: "fst (snd (connect stub_lib example_env example_api example_world))
       = example_api\<lparr>token := PyStr ''tok''\<rparr>"
    using th[THEN conjunct2, THEN conjunct1, rule_format, of token_response "PyStr ''tok''"] ok
    by simp
  let ?no = "PyDict [(''success'', PyBool False), (''msg'', PyStr ''sign invalid'')]"
  have sign2: "sign_request stub_lib (time_ms refused_env (length (sent example_world)))
      example_api ''GET'' ''/v1.0/token?grant_type=1'' PyNone = Inr example_headers"
    by (simp add: refused_env_def eval_defs str_defs)
  have resp2: "requests_get refused_env (length (sent example_world))
        (endpoint example_api @ ''/v1.0/token?grant_type=1'') example_headers = Inr (Json ?no)"
    by (simp add: refused_env_def)
  have no: "is_dict ?no" "\<not> reports_success ?no"
    by (simp_all add: reports_success_def)
  have run2: "connect stub_lib refused_env example_api example_world =
      (fst (connect stub_lib refused_env example_api example_world),
       fst (snd (connect stub_lib refused_env example_api example_world)),
       snd (snd (connect stub_lib refused_env example_api example_world)))"
    by simp
  note th2 = connect_outcome[OF sign2 resp2 run2]
  have "(\<exists>msg. Inr (Json ?no) = Inr (NotJson msg))
      \<or> (\<exists>result. Inr (Json ?no) = Inr (Json result) \<and> is_dict result \<and> \<not> reports_success result)"
    using no by simp
  then have r2: "fst (connect stub_lib refused_env example_api example_world) = Inr False"
    by (rule th2[THEN conjunct2, THEN conjunct2, THEN conjunct1, THEN iffD2])
  then have "fst (connect stub_lib refused_env example_api example_world) \<noteq> Inr True"
    by simp
  then have s2: "fst (snd (connect stub_lib refused_env example_api example_world)) = example_api"
    using th2 by blast
  from sign resp ok r s sign2 resp2 no r2 s2 show ?thesis by simp
qed

section \<open>Properties of the output sinks\<close>

lemma py_print_frame [simp]:
  "fs (py_print l w) = fs w" "sent (py_print l w) = sent w"
  "stdout (py_print l w) = stdout w @ [l]"
  by (simp_all add: py_print_def)

lemma posts_py_print [simp]: "posts (py_print l w) = posts w"
  by (simp add: posts_def)

lemma is_file_read_file: "is_file f p \<longleftrightarrow> read_file f p \<noteq> None"
  by (simp add: is_file_def read_file_def map_of_eq_None_iff)

lemma read_write_file_same:
  "read_file (write_file p txt f) p =
     Some ((case read_file f p of None \<Rightarrow> [] | Some old \<Rightarrow> old) @ txt)"
  by (simp add: read_file_def write_file_def update_conv')

lemma read_write_file_other:
  "q \<noteq> p \<Longrightarrow> read_file (write_file p txt f) q = read_file f q"
  by (simp add: read_file_def write_file_def update_conv')

lemma write_file_frame [simp]:
  "dirs (write_file p txt f) = dirs f" "denied (write_file p txt f) = denied f"
  by (simp_all add: write_file_def)

lemma write_rows_frame [simp]:
  "dirs (write_rows L p rows f) = dirs f" "denied (write_rows L p rows f) = denied f"
  by (induction rows arbitrary: f) simp_all

lemma read_write_rows_same:
  "read_file f p = Some old \<Longrightarrow>
   read_file (write_rows L p rows f) p = Some (old @ concat (map (csv_line L) rows))"
proof (induction rows arbitrary: f old)
  case Nil
  then show ?case by simp
next
  case (Cons r rows)
  have "read_file (write_file p (csv_line L r) f) p = Some (old @ csv_line L r)"
    using Cons.prems by (simp add: read_write_file_same)
  from Cons.IH[OF this] show ?case by simp
qed

lemma open_write_append:
  assumes "open_write False p fsys = Inr f"
  shows "read_file f p = Some (case read_file fsys p of None \<Rightarrow> [] | Some old \<Rightarrow> old)"
    and "dirs f = dirs fsys" and "denied f = denied fsys"
    and "\<not> is_dir fsys p" and "p \<notin> set (denied fsys)"
    and "dirname p = [] \<or> is_dir fsys (dirname p)"
    and "q \<noteq> p \<Longrightarrow> read_file f q = read_file fsys q"
  using assms
  by (auto simp: open_write_def is_file_read_file read_file_def update_conv'
      split: if_splits)

lemma open_write_existing:
  assumes "read_file fsys p = Some old" "\<not> is_dir fsys p" "p \<notin> set (denied fsys)"
    "dirname p = [] \<or> is_dir fsys (dirname p)"
  shows "open_write False p fsys = Inr fsys"
  using assms by (auto simp: open_write_def is_file_read_file)

text \<open>
  Claim C8. When \<^verbatim>\<open>append_to_csv\<close> returns, the file holds what it held before, or the
  header line if it did not exist, followed by one data line for each reading. A second
  call on the same path returns too and adds its data lines after those of the first:
  the header is not written again.
\<close>

theorem csv_header_once:
  assumes first: "append_to_csv L p rows fsys = Inr f1"
  shows "read_file f1 p =
           Some ((case read_file fsys p of None \<Rightarrow> csv_header | Some old \<Rightarrow> old)
                 @ concat (map (csv_line L) rows))
       \<and> (\<exists>f2. append_to_csv L p rows2 f1 = Inr f2
             \<and> read_file f2 p =
                 Some ((case read_file fsys p of None \<Rightarrow> csv_header | Some old \<Rightarrow> old)
                       @ concat (map (csv_line L) rows) @ concat (map (csv_line L) rows2)))"
proof -
  let ?start = "case read_file fsys p of None \<Rightarrow> csv_header | Some old \<Rightarrow> old"
  let ?lines = "concat (map (csv_line L) rows)"
  obtain f where op: "open_write False p fsys = Inr f"
    and f1: "f1 = write_rows L p rows
                (if \<not> path_exists fsys p then write_file p csv_header f else f)"
    using first by (auto simp: append_to_csv_def Let_def split: sum.splits)
  note o = open_write_append[OF op]
  have ex: "path_exists fsys p \<longleftrightarrow> read_file fsys p \<noteq> None"
    using o(4) by (simp add: path_exists_def is_file_read_file)
  have "read_file (if \<not> path_exists fsys p then write_file p csv_header f else f) p
          = Some ?start"
    using o(1) by (auto simp: ex read_write_file_same)
  then have r1: "read_file f1 p = Some (?start @ ?lines)"
    unfolding f1 by (rule read_write_rows_same)
  have d1: "dirs f1 = dirs fsys" "denied f1 = denied fsys"
    using o(2,3) by (simp_all add: f1)
  have "open_write False p f1 = Inr f1"
    using r1 o(4,5,6) d1 by (intro open_write_existing) (simp_all add: is_dir_def)
  moreover have "path_exists f1 p"
    using r1 by (simp add: path_exists_def is_file_read_file)
  ultimately have a2: "append_to_csv L p rows2 f1 = Inr (write_rows L p rows2 f1)"
    by (simp add: append_to_csv_def)
  have "read_file (write_rows L p rows2 f1) p
          = Some ((?start @ ?lines) @ concat (map (csv_line L) rows2))"
    using r1 by (rule read_write_rows_same)
  with a2 r1 show ?thesis by simp
qed

theorem csv_header_once_witness:
  "append_to_csv stub_lib ''data/TROFICDORD20240102.csv'' [hd example_readings]
      \<lparr>dirs = [''data''], files = [], denied = []\<rparr>
     = Inr \<lparr>dirs = [''data''],
            files = [(''data/TROFICDORD20240102.csv'',
              ''timestamp,device_id,temperature_c,humidity_percent\<newline>''
              @ ''2024-01-02 03:04:05,bf7ecfc010164c849dwpqp,23.5,45.5\<newline>'')],
            denied = []\<rparr>
   \<and> (\<exists>f2. append_to_csv stub_lib ''data/TROFICDORD20240102.csv'' (tl example_readings)
          \<lparr>dirs = [''data''],
           files = [(''data/TROFICDORD20240102.csv'',
              ''timestamp,device_id,temperature_c,humidity_percent\<newline>''
              @ ''2024-01-02 03:04:05,bf7ecfc010164c849dwpqp,23.5,45.5\<newline>'')],
           denied = []\<rparr> = Inr f2
        \<and> read_file f2 ''data/TROFICDORD20240102.csv''
            = Some (''timestamp,device_id,temperature_c,humidity_percent\<newline>''
              @ ''2024-01-02 03:04:05,bf7ecfc010164c849dwpqp,23.5,45.5\<newline>''
              @ ''2024-01-02 03:04:05,bfefd09a22241b31b10cpo,-6.0,45\<newline>''))"
proof -
  let ?p = "''data/TROFICDORD20240102.csv''"
  let ?f0 = "\<lparr>dirs = [''data''], files = [], denied = []\<rparr>"
  let ?f1 = "\<lparr>dirs = [''data''],
            files = [(''data/TROFICDORD20240102.csv'',
              ''timestamp,device_id,temperature_c,humidity_percent\<newline>''
              @ ''2024-01-02 03:04:05,bf7ecfc010164c849dwpqp,23.5,45.5\<newline>'')],
            denied = []\<rparr>"
  have first: "append_to_csv stub_lib ?p [hd example_readings] ?f0 = Inr ?f1"
    by (simp add: append_to_csv_def open_write_def path_exists_def is_dir_def is_file_def
        dirname_def write_file_def csv_header_def csv_line_def example_readings_def stub_lib_def)
  have lines: "concat (map (csv_line stub_lib) [hd example_readings])
      = ''2024-01-02 03:04:05,bf7ecfc010164c849dwpqp,23.5,45.5\<newline>''"
    "concat (map (csv_line stub_lib) (tl example_readings))
      = ''2024-01-02 03:04:05,bfefd09a22241b31b10cpo,-6.0,45\<newline>''"
    by (simp_all add: csv_line_def example_readings_def stub_lib_def str_int_def str_nat.simps
        digit_char_def)
  have none: "read_file ?f0 ?p = None"
    by (simp add: read_file_def)
  have second: "\<exists>f2. append_to_csv stub_lib ?p (tl example_readings) ?f1 = Inr f2
     \<and> read_file f2 ?p = Some (''timestamp,device_id,temperature_c,humidity_percent\<newline>''
              @ ''2024-01-02 03:04:05,bf7ecfc010164c849dwpqp,23.5,45.5\<newline>''
              @ ''2024-01-02 03:04:05,bfefd09a22241b31b10cpo,-6.0,45\<newline>'')"
    using csv_header_once[OF first, of "tl example_readings", THEN conjunct2]
    unfolding lines none csv_header_def option.case by simp
  from first second show ?thesis by (rule conjI)
qed

section \<open>Properties of the run orchestrator\<close>

lemma connect_frame:
  assumes "connect L E self w = (res, self', w')"
  shows "fs w' = fs w \<and> posts w' = posts w"
  using assms
  by (auto simp: connect_def Let_def posts_def split: sum.splits http_body.splits if_splits)

lemma get_frame:
  assumes "get L E self path w = (res, w')"
  shows "fs w' = fs w \<and> posts w' = posts w"
  using assms
  by (auto simp: get_def Let_def posts_def split: sum.splits http_body.splits if_splits)

lemma fetch_device_frame:
  assumes "fetch_device L E self ts dev (rs, w) = (res, w')"
  shows "fs w' = fs w \<and> posts w' = posts w"
proof -
  obtain r1 w1 where g: "get L E self (''/v1.0/devices/'' @ dev @ ''/status'')
      (py_print (''--- Fetching device: '' @ dev @ '' ---'') w) = (r1, w1)"
    by (cases "get L E self (''/v1.0/devices/'' @ dev @ ''/status'')
      (py_print (''--- Fetching device: '' @ dev @ '' ---'') w)") auto
  from get_frame[OF g] have "fs w1 = fs w \<and> posts w1 = posts w" by simp
  with assms g show ?thesis
    by (auto simp: fetch_device_def Let_def split: sum.splits if_splits prod.splits)
qed

lemma fetch_devices_frame:
  "fetch_devices L E self ts devs (rs, w) = (res, w') \<Longrightarrow> fs w' = fs w \<and> posts w' = posts w"
proof (induction devs arbitrary: rs w)
  case Nil
  then show ?case by simp
next
  case (Cons dev devs)
  obtain r1 w1 where d: "fetch_device L E self ts dev (rs, w) = (r1, w1)"
    by (cases "fetch_device L E self ts dev (rs, w)") auto
  note f = fetch_device_frame[OF d]
  show ?case
  proof (cases r1)
    case (Inl e)
    with Cons.prems d f show ?thesis by simp
  next
    case (Inr rs1)
    with Cons.prems d have "fetch_devices L E self ts devs (rs1, w1) = (res, w')" by simp
    from Cons.IH[OF this] f show ?thesis by simp
  qed
qed

lemma main_collect_frame:
  assumes "main_collect L E w = (res, w')"
  shows "fs w' = fs w \<and> posts w' = posts w"
proof (cases "\<not> var_present (TUYA_ACCESS_ID E) \<or> \<not> var_present (TUYA_ACCESS_KEY E)")
  case True
  with assms show ?thesis by (auto simp: main_collect_def Let_def)
next
  case False
  let ?ts = "datetime_now E (length (sent w))"
  let ?w0 = "py_print (''\<newline>['' @ ?ts @ ''] Starting IoT data fetch for ''
                  @ str_int (int (length DEVICE_IDS)) @ '' devices...'') w"
  let ?w1 = "py_print (''DEBUG: Using ACCESS_ID: '' @ take 8 (var_value (TUYA_ACCESS_ID E))
                         @ ''... (truncated for security)'') ?w0"
  let ?self = "\<lparr>endpoint = ENDPOINT, access_id = var_value (TUYA_ACCESS_ID E),
                 access_key = var_value (TUYA_ACCESS_KEY E), token = PyNone\<rparr>"
  obtain r2 self1 w2 where c: "connect L E ?self ?w1 = (r2, self1, w2)"
    by (cases "connect L E ?self ?w1") auto
  from connect_frame[OF c] have f2: "fs w2 = fs w \<and> posts w2 = posts w" by simp
  let ?w2' = "py_print ''Connected successfully\<newline>'' w2"
  obtain r3 w3 where l: "fetch_devices L E self1 ?ts DEVICE_IDS ([], ?w2') = (r3, w3)"
    by (cases "fetch_devices L E self1 ?ts DEVICE_IDS ([], ?w2')") auto
  from fetch_devices_frame[OF l] f2 have f3: "fs w3 = fs w \<and> posts w3 = posts w" by simp
  from assms False c l f2 f3 show ?thesis
    by (auto simp: main_collect_def Let_def split: sum.splits if_splits)
qed








lemma fetch_device_timestamps:
  assumes "fetch_device L E self ts dev (rs, w) = (Inr rs', w')"
    and "\<forall>r \<in> set rs. timestamp r = ts"
  shows "\<forall>r \<in> set rs'. timestamp r = ts"
  using assms
  by (auto simp: fetch_device_def Let_def split: sum.splits if_splits prod.splits)

lemma fetch_devices_timestamps:
  "fetch_devices L E self ts devs (rs, w) = (Inr rs', w') \<Longrightarrow>
   \<forall>r \<in> set rs. timestamp r = ts \<Longrightarrow> \<forall>r \<in> set rs'. timestamp r = ts"
proof (induction devs arbitrary: rs w)
  case Nil
  then show ?case by simp
next
  case (Cons dev devs)
  obtain r1 w1 where d: "fetch_device L E self ts dev (rs, w) = (r1, w1)"
    by (cases "fetch_device L E self ts dev (rs, w)") auto
  show ?case
  proof (cases r1)
    case (Inl e)
    with Cons.prems d show ?thesis by simp
  next
    case (Inr rs1)
    with Cons.prems d have l: "fetch_devices L E self ts devs (rs1, w1) = (Inr rs', w')" by simp
    have "\<forall>r \<in> set rs1. timestamp r = ts"
      using fetch_device_timestamps[OF d[unfolded Inr] Cons.prems(2)] .
    from Cons.IH[OF l this] show ?thesis .
  qed
qed

text \<open>
  Claim C9. Every Reading of the batch carries the timestamp the clock gave when \<^verbatim>\<open>main\<close>
  started, before the run issued any request, whatever the clock gives later.
\<close>

theorem batch_single_timestamp:
  assumes "fst (main_collect L E w) = Inr (Inr rs)"
  shows "\<forall>r \<in> set rs. timestamp r = datetime_now E (length (sent w))"
proof -
  let ?ts = "datetime_now E (length (sent w))"
  let ?w0 = "py_print (''\<newline>['' @ ?ts @ ''] Starting IoT data fetch for ''
                  @ str_int (int (length DEVICE_IDS)) @ '' devices...'') w"
  let ?w1 = "py_print (''DEBUG: Using ACCESS_ID: '' @ take 8 (var_value (TUYA_ACCESS_ID E))
                         @ ''... (truncated for security)'') ?w0"
  let ?self = "\<lparr>endpoint = ENDPOINT, access_id = var_value (TUYA_ACCESS_ID E),
                 access_key = var_value (TUYA_ACCESS_KEY E), token = PyNone\<rparr>"
  obtain r2 self1 w2 where c: "connect L E ?self ?w1 = (r2, self1, w2)"
    by (cases "connect L E ?self ?w1") auto
  let ?w2' = "py_print ''Connected successfully\<newline>'' w2"
  obtain r3 w3 where l: "fetch_devices L E self1 ?ts DEVICE_IDS ([], ?w2') = (r3, w3)"
    by (cases "fetch_devices L E self1 ?ts DEVICE_IDS ([], ?w2')") auto
  from assms c l have "r3 = Inr rs"
    by (auto simp: main_collect_def Let_def split: sum.splits if_splits)
  with l have "fetch_devices L E self1 ?ts DEVICE_IDS ([], ?w2') = (Inr rs, w3)" by simp
  from fetch_devices_timestamps[OF this] show ?thesis by simp
qed

theorem batch_single_timestamp_witness:
  "fst (main_collect stub_lib example_env example_world) = Inr (Inr example_readings)
   \<and> length (sent example_world) = 0
   \<and> map timestamp example_readings = [datetime_now example_env 0, datetime_now example_env 0]
   \<and> datetime_now example_env 1 \<noteq> datetime_now example_env 0"
proof -
  have "\<forall>r \<in> set example_readings.
          timestamp r = datetime_now example_env (length (sent example_world))"
    using example_collect by (rule batch_single_timestamp)
  then have "map timestamp example_readings
               = [datetime_now example_env 0, datetime_now example_env 0]"
    by (simp add: example_readings_def example_world_def)
  moreover have "length (sent example_world) = 0"
    by (simp add: example_world_def)
  moreover have "datetime_now example_env 1 \<noteq> datetime_now example_env 0"
    by (simp add: example_env_def)
  ultimately show ?thesis using example_collect by simp
qed

text \<open>
  Claim C7. A run that collects zero readings exits with code 0, leaves the file system as
  it was (no CSV file, no manifest) and issues no storage POST; it only prints that
  there is nothing to write.
\<close>

theorem zero_readings_no_output:
  assumes "fst (main_collect L E w) = Inr (Inr [])"
  shows "fst (main L E w) = Inr 0
       \<and> fs (snd (main L E w)) = fs w
       \<and> posts (snd (main L E w)) = posts w
       \<and> stdout (snd (main L E w)) =
           stdout (snd (main_collect L E w)) @ [''No readings collected; nothing to write.'']"
proof -
  obtain w1 where c: "main_collect L E w = (Inr (Inr []), w1)"
    using assms by (cases "main_collect L E w") auto
  from main_collect_frame[OF c] have "fs w1 = fs w \<and> posts w1 = posts w" .
  with c show ?thesis
    by (simp add: main_def main_output_def)
qed

theorem zero_readings_no_output_witness:
  "fst (main_collect stub_lib offline_env example_world) = Inr (Inr [])
   \<and> fst (main stub_lib offline_env example_world) = Inr 0
   \<and> fs (snd (main stub_lib offline_env example_world)) = \<lparr>dirs = [], files = [], denied = []\<rparr>
   \<and> posts (snd (main stub_lib offline_env example_world)) = []"
  using zero_readings_no_output[OF offline_collect] offline_collect
  by (simp add: example_world_def posts_def)

lemma send_to_storage_caught: "fst (send_to_storage E rs w) = Inr ()"
  by (simp add: send_to_storage_def Let_def split: sum.splits)

lemma send_to_storage_frame:
  "fs (snd (send_to_storage E rs w)) = fs w"
  "length (sent (snd (send_to_storage E rs w))) =
     (if STORAGE_URL E \<noteq> [] then Suc (length (sent w)) else length (sent w))"
  by (simp_all add: send_to_storage_def Let_def split: sum.splits)

lemma ensure_dir_caught: "fst (ensure_dir d w) = Inr ()"
  by (simp add: ensure_dir_def split: sum.splits)

lemma ensure_dir_fs:
  "fs (snd (ensure_dir d w)) = (case makedirs d (fs w) of Inl msg \<Rightarrow> fs w | Inr f \<Rightarrow> f)"
  by (simp add: ensure_dir_def split: sum.splits)

lemma update_manifest_caught: "fst (update_manifest L d w) = Inr ()"
  by (simp add: update_manifest_def Let_def split: sum.splits)

lemma update_manifest_fs:
  "fs (snd (update_manifest L d w)) =
     (case listdir d (fs w) of
        Inl msg \<Rightarrow> fs w
      | Inr names \<Rightarrow>
          (case open_write True (d @ ''/'' @ ''manifest.json'') (fs w) of
             Inl msg \<Rightarrow> fs w
           | Inr f \<Rightarrow>
               write_file (d @ ''/'' @ ''manifest.json'')
                 (json_dumps L (PyList (map PyStr
                    (sort (filter (\<lambda>f. startswith f ''TROFICDORD'' \<and> endswith f ''.csv'') names)))))
                 f))"
  by (simp add: update_manifest_def Let_def split: sum.splits)

lemma open_write_other:
  "open_write t p fsys = Inr f \<Longrightarrow> q \<noteq> p \<Longrightarrow> read_file f q = read_file fsys q"
  by (auto simp: open_write_def read_file_def update_conv' split: if_splits)

lemma update_manifest_other:
  assumes "q \<noteq> d @ ''/'' @ ''manifest.json''"
  shows "read_file (fs (snd (update_manifest L d w))) q = read_file (fs w) q"
  using assms
  by (auto simp: update_manifest_fs read_write_file_other open_write_other split: sum.splits)

lemma print_rows_frame [simp]:
  "fs (print_rows L rs w) = fs w" "sent (print_rows L rs w) = sent w"
  by (induction rs arbitrary: w) simp_all

lemma main_output_nonempty:
  assumes "rs \<noteq> []"
  shows "fst (main_output L E rs w) =
           (case append_to_csv L
                   (''data/TROFICDORD'' @ date_today E (length (sent (snd (send_to_storage E rs w))))
                      @ ''.csv'')
                   rs (fs (snd (ensure_dir ''data'' (snd (send_to_storage E rs w))))) of
              Inl e \<Rightarrow> Inl e | Inr f \<Rightarrow> Inr ())"
    and "fs (snd (main_output L E rs w)) =
           (case append_to_csv L
                   (''data/TROFICDORD'' @ date_today E (length (sent (snd (send_to_storage E rs w))))
                      @ ''.csv'')
                   rs (fs (snd (ensure_dir ''data'' (snd (send_to_storage E rs w))))) of
              Inl e \<Rightarrow> fs (snd (ensure_dir ''data'' (snd (send_to_storage E rs w))))
            | Inr f \<Rightarrow>
                fs (snd (update_manifest L ''data''
                  (py_print (''Wrote/updated CSV: '' @ ''data/TROFICDORD''
                       @ date_today E (length (sent (snd (send_to_storage E rs w)))) @ ''.csv'')
                     (snd (ensure_dir ''data'' (snd (send_to_storage E rs w)))\<lparr>fs := f\<rparr>)))))"
proof -
  obtain w1 where s: "send_to_storage E rs w = (Inr (), w1)"
    using send_to_storage_caught[of E rs w] by (cases "send_to_storage E rs w") auto
  obtain w2 where e: "ensure_dir ''data'' w1 = (Inr (), w2)"
    using ensure_dir_caught[of "''data''" w1] by (cases "ensure_dir ''data'' w1") auto
  have m: "update_manifest L ''data'' w' = (r, w3) \<Longrightarrow> r = Inr ()" for w' r w3
    using update_manifest_caught[of L "''data''" w'] by simp
  show "fst (main_output L E rs w) =
           (case append_to_csv L
                   (''data/TROFICDORD'' @ date_today E (length (sent (snd (send_to_storage E rs w))))
                      @ ''.csv'')
                   rs (fs (snd (ensure_dir ''data'' (snd (send_to_storage E rs w))))) of
              Inl e \<Rightarrow> Inl e | Inr f \<Rightarrow> Inr ())"
    using assms
    by (auto simp: main_output_def s e Let_def split: sum.splits prod.splits dest: m)
  show "fs (snd (main_output L E rs w)) =
           (case append_to_csv L
                   (''data/TROFICDORD'' @ date_today E (length (sent (snd (send_to_storage E rs w))))
                      @ ''.csv'')
                   rs (fs (snd (ensure_dir ''data'' (snd (send_to_storage E rs w))))) of
              Inl e \<Rightarrow> fs (snd (ensure_dir ''data'' (snd (send_to_storage E rs w))))
            | Inr f \<Rightarrow>
                fs (snd (update_manifest L ''data''
                  (py_print (''Wrote/updated CSV: '' @ ''data/TROFICDORD''
                       @ date_today E (length (sent (snd (send_to_storage E rs w)))) @ ''.csv'')
                     (snd (ensure_dir ''data'' (snd (send_to_storage E rs w)))\<lparr>fs := f\<rparr>)))))"
    using assms
    by (auto simp: main_output_def s e Let_def split: sum.splits prod.splits dest: m)
qed

lemma connect_post_indep: "connect L (E\<lparr>requests_post := p\<rparr>) self w = connect L E self w"
  by (simp add: connect_def Let_def split: sum.splits)

lemma get_post_indep: "get L (E\<lparr>requests_post := p\<rparr>) self path w = get L E self path w"
  by (simp add: get_def Let_def split: sum.splits)

lemma fetch_device_post_indep:
  "fetch_device L (E\<lparr>requests_post := p\<rparr>) self ts dev rw = fetch_device L E self ts dev rw"
  by (simp add: fetch_device_def get_post_indep)

lemma fetch_devices_post_indep:
  "fetch_devices L (E\<lparr>requests_post := p\<rparr>) self ts devs rw = fetch_devices L E self ts devs rw"
  by (induction devs arbitrary: rw)
    (simp_all add: fetch_device_post_indep split: sum.splits prod.splits)

lemma main_collect_post_indep:
  "main_collect L (E\<lparr>requests_post := p\<rparr>) w = main_collect L E w"
  by (simp add: main_collect_def connect_post_indep fetch_devices_post_indep Let_def
      split: sum.splits prod.splits)

lemma main_after_collect:
  assumes "main_collect L E w0 = (Inr (Inr rs), w)"
  shows "fst (main L E w0) = (case fst (main_output L E rs w) of Inl e \<Rightarrow> Inl e | Inr u \<Rightarrow> Inr 0)"
    and "snd (main L E w0) = snd (main_output L E rs w)"
  using assms by (auto simp: main_def split: sum.splits prod.splits)

lemma csv_not_manifest: "''data/TROFICDORD'' @ d @ ''.csv'' \<noteq> ''data'' @ ''/'' @ ''manifest.json''"
  by simp

text \<open>
  Claim C6. In a run that collected at least one reading and whose storage POST raises,
  \<^verbatim>\<open>send_to_storage\<close> catches the exception and prints it; the exit status and the file
  system at the end are those of the same run with any other behaviour \<open>p\<close> of the POST;
  and when the CSV file can be appended to, the exit code is 0 and the file holds what
  \<^verbatim>\<open>append_to_csv\<close> wrote.
\<close>

theorem storage_failure_contained:
  assumes collect: "main_collect L E w0 = (Inr (Inr rs), w)"
    and rs: "rs \<noteq> []"
    and url: "STORAGE_URL E \<noteq> []"
    and raises: "requests_post E (length (sent w)) (STORAGE_URL E) rs = Inl msg"
  shows "send_to_storage E rs w =
           (Inr (), py_print (''Storage error: '' @ msg)
                      (w\<lparr>sent := sent w @ [Post (STORAGE_URL E) rs]\<rparr>))
       \<and> fst (main L E w0) = fst (main L (E\<lparr>requests_post := p\<rparr>) w0)
       \<and> fs (snd (main L E w0)) = fs (snd (main L (E\<lparr>requests_post := p\<rparr>) w0))
       \<and> (append_to_csv L (''data/TROFICDORD'' @ date_today E (Suc (length (sent w))) @ ''.csv'')
              rs (fs (snd (ensure_dir ''data'' w))) = Inr f
            \<longrightarrow> fst (main L E w0) = Inr 0
               \<and> read_file (fs (snd (main L E w0)))
                     (''data/TROFICDORD'' @ date_today E (Suc (length (sent w))) @ ''.csv'')
                   = read_file f
                       (''data/TROFICDORD'' @ date_today E (Suc (length (sent w))) @ ''.csv''))"
proof -
  let ?E' = "E\<lparr>requests_post := p\<rparr>"
  let ?csv = "''data/TROFICDORD'' @ date_today E (Suc (length (sent w))) @ ''.csv''"
  have caught: "send_to_storage E rs w =
           (Inr (), py_print (''Storage error: '' @ msg)
                      (w\<lparr>sent := sent w @ [Post (STORAGE_URL E) rs]\<rparr>))"
    using url raises by (simp add: send_to_storage_def Let_def)
  have collect': "main_collect L ?E' w0 = (Inr (Inr rs), w)"
    using collect by (simp add: main_collect_post_indep)
  have len: "length (sent (snd (send_to_storage E rs w))) = Suc (length (sent w))"
    "length (sent (snd (send_to_storage ?E' rs w))) = Suc (length (sent w))"
    using url by (simp_all add: send_to_storage_frame)
  have dir: "fs (snd (ensure_dir ''data'' (snd (send_to_storage E rs w))))
               = fs (snd (ensure_dir ''data'' w))"
    "fs (snd (ensure_dir ''data'' (snd (send_to_storage ?E' rs w))))
               = fs (snd (ensure_dir ''data'' w))"
    by (simp_all add: ensure_dir_fs send_to_storage_frame cong: sum.case_cong)
  have man: "fs (snd (update_manifest L ''data'' (py_print l (wa\<lparr>fs := g\<rparr>))))
              = fs (snd (update_manifest L ''data'' (py_print l (wb\<lparr>fs := g\<rparr>))))" for l wa wb g
    by (simp add: update_manifest_fs cong: sum.case_cong)
  have out_fst: "fst (main_output L E rs w) = fst (main_output L ?E' rs w)"
    by (simp add: main_output_nonempty(1)[OF rs] len dir)
  have out_fs: "fs (snd (main_output L E rs w)) = fs (snd (main_output L ?E' rs w))"
    by (simp add: main_output_nonempty(2)[OF rs] len dir man[where wa="snd (ensure_dir ''data''
          (snd (send_to_storage E rs w)))" and wb="snd (ensure_dir ''data''
          (snd (send_to_storage ?E' rs w)))"] split: sum.splits)
  have indep_fst: "fst (main L E w0) = fst (main L ?E' w0)"
    by (simp add: main_after_collect(1)[OF collect] main_after_collect(1)[OF collect'] out_fst)
  have indep_fs: "fs (snd (main L E w0)) = fs (snd (main L ?E' w0))"
    by (simp add: main_after_collect(2)[OF collect] main_after_collect(2)[OF collect'] out_fs)
  have csv: "fst (main L E w0) = Inr 0
             \<and> read_file (fs (snd (main L E w0))) ?csv = read_file f ?csv"
    if a: "append_to_csv L ?csv rs (fs (snd (ensure_dir ''data'' w))) = Inr f"
  proof -
    have "fst (main_output L E rs w) = Inr ()"
      using a by (simp add: main_output_nonempty(1)[OF rs] len dir)
    then have code: "fst (main L E w0) = Inr 0"
      by (simp add: main_after_collect(1)[OF collect])
    have "fs (snd (main_output L E rs w)) =
            fs (snd (update_manifest L ''data''
                  (py_print (''Wrote/updated CSV: '' @ ?csv)
                     (snd (ensure_dir ''data'' (snd (send_to_storage E rs w)))\<lparr>fs := f\<rparr>))))"
      using a by (simp add: main_output_nonempty(2)[OF rs] len dir)
    then have "read_file (fs (snd (main_output L E rs w))) ?csv = read_file f ?csv"
      using update_manifest_other[OF csv_not_manifest, of L _ "date_today E (Suc (length (sent w)))"]
      by simp
    with code show ?thesis
      by (simp add: main_after_collect(2)[OF collect])
  qed
  from caught indep_fst indep_fs csv show ?thesis by blast
qed

theorem storage_failure_contained_witness:
  "fst (main_collect stub_lib example_env example_world) = Inr (Inr example_readings)
   \<and> example_readings \<noteq> []
   \<and> STORAGE_URL example_env \<noteq> []
   \<and> requests_post example_env
        (length (sent (snd (main_collect stub_lib example_env example_world))))
        (STORAGE_URL example_env) example_readings = Inl ''connection refused''
   \<and> fst (send_to_storage example_env example_readings
             (snd (main_collect stub_lib example_env example_world))) = Inr ()
   \<and> fst (main stub_lib example_env example_world) = Inr 0
   \<and> fst (main stub_lib (example_env\<lparr>requests_post := (\<lambda>n url readings. Inr 200)\<rparr>)
             example_world) = Inr 0
   \<and> read_file (fs (snd (main stub_lib example_env example_world)))
        ''data/TROFICDORD20240102.csv''
       = Some (''timestamp,device_id,temperature_c,humidity_percent\<newline>''
              @ ''2024-01-02 03:04:05,bf7ecfc010164c849dwpqp,23.5,45.5\<newline>''
              @ ''2024-01-02 03:04:05,bfefd09a22241b31b10cpo,-6.0,45\<newline>'')"
proof -
  let ?w = "snd (main_collect stub_lib example_env example_world)"
  let ?f = "\<lparr>dirs = [''data''],
            files = [(''data/TROFICDORD20240102.csv'',
              ''timestamp,device_id,temperature_c,humidity_percent\<newline>''
              @ ''2024-01-02 03:04:05,bf7ecfc010164c849dwpqp,23.5,45.5\<newline>''
              @ ''2024-01-02 03:04:05,bfefd09a22241b31b10cpo,-6.0,45\<newline>'')],
            denied = []\<rparr>"
  note collect = collected_world[OF example_collect]
  have rs: "example_readings \<noteq> []"
    by (simp add: example_readings_def)
  have url: "STORAGE_URL example_env \<noteq> []"
    by (simp add: example_env_def)
  have raises: "requests_post example_env (length (sent ?w)) (STORAGE_URL example_env)
      example_readings = Inl ''connection refused''"
    by (simp add: example_env_def)
  have day: "date_today example_env (Suc (length (sent ?w))) = ''20240102''"
    by (simp add: example_env_def)
  have "fs ?w = fs example_world"
    using main_collect_frame[OF collect] by simp
  then have dir: "fs (snd (ensure_dir ''data'' ?w)) = \<lparr>dirs = [''data''], files = [], denied = []\<rparr>"
    by (simp add: ensure_dir_fs makedirs_def is_dir_def is_file_def example_world_def)
  have csv: "append_to_csv stub_lib
      (''data/TROFICDORD'' @ date_today example_env (Suc (length (sent ?w))) @ ''.csv'')
      example_readings (fs (snd (ensure_dir ''data'' ?w))) = Inr ?f"
    unfolding day dir
    by (simp add: append_to_csv_def open_write_def path_exists_def is_dir_def is_file_def
        dirname_def write_file_def csv_header_def csv_line_def example_readings_def stub_lib_def
        str_int_def str_nat.simps digit_char_def)
  note th = storage_failure_contained[OF collect rs url raises,
      where p = "\<lambda>n url readings. Inr 200" and f = ?f]
  have caught: "fst (send_to_storage example_env example_readings ?w) = Inr ()"
    using th[THEN conjunct1] by simp
  have code: "fst (main stub_lib example_env example_world) = Inr 0"
    and csv_file: "read_file (fs (snd (main stub_lib example_env example_world)))
        (''data/TROFICDORD'' @ date_today example_env (Suc (length (sent ?w))) @ ''.csv'')
       = read_file ?f
           (''data/TROFICDORD'' @ date_today example_env (Suc (length (sent ?w))) @ ''.csv'')"
    using th[THEN conjunct2, THEN conjunct2, THEN conjunct2, rule_format, OF csv] by simp_all
  have same: "fst (main stub_lib (example_env\<lparr>requests_post := (\<lambda>n url readings. Inr 200)\<rparr>)
             example_world) = Inr 0"
    using th[THEN conjunct2, THEN conjunct1] code by simp
  have content: "read_file (fs (snd (main stub_lib example_env example_world)))
        ''data/TROFICDORD20240102.csv''
       = Some (''timestamp,device_id,temperature_c,humidity_percent\<newline>''
              @ ''2024-01-02 03:04:05,bf7ecfc010164c849dwpqp,23.5,45.5\<newline>''
              @ ''2024-01-02 03:04:05,bfefd09a22241b31b10cpo,-6.0,45\<newline>'')"
    using csv_file unfolding day by (simp add: read_file_def)
  from example_collect rs url raises caught code same content show ?thesis
    by simp
qed

end
